theory Spec2Isabelle
  imports Main
begin

section \<open>Configuration values and errors\<close>

text \<open>
  A configuration is the Python \<^verbatim>\<open>dict\<close> that \<^verbatim>\<open>yaml.load\<close> returns: parameter
  names (strings) mapped to YAML values. A key bound to \<^verbatim>\<open>None\<close> is present, with value
  \<open>YNull\<close>; an absent key is \<open>None\<close> of the map. The values are the null, the
  booleans, the integers, the strings, and lists and mappings of values; floats, timestamps
  and binary values, which no table of \<^verbatim>\<open>upgrade_config.py\<close> holds, are left out. The
  order of the keys of a \<^verbatim>\<open>dict\<close> is not modelled: \<^verbatim>\<open>upgrade_config\<close> does not read it,
  and two dictionaries with the same items are equal.
\<close>

datatype yaml =
    YNull
  | YBool bool
  | YInt int
  | YStr string
  | YSeq "yaml list"
  | YMap "(string \<times> yaml) list"

type_synonym config = "string \<rightharpoonup> yaml"

text \<open>
  The exceptions the code can raise: the \<^verbatim>\<open>assert\<close> of \<^verbatim>\<open>upgrade_config_file\<close>,
  \<^verbatim>\<open>KeyError\<close> of \<^verbatim>\<open>config[key]\<close> and \<^verbatim>\<open>del d[key]\<close> on a missing key,
  \<^verbatim>\<open>TypeError\<close> of \<^verbatim>\<open>os.path.split\<close> on a value that is no string, and a failure
  of \<^verbatim>\<open>open\<close> or \<^verbatim>\<open>yaml.load\<close>.
\<close>

datatype error =
    AssertionError
  | KeyError string
  | TypeError
  | LoadError

section \<open>Paths (Python's posixpath)\<close>

definition sep :: char where
  "sep = CHR ''/''"

text \<open>\<^verbatim>\<open>p[p.rfind('/') + 1:]\<close>: what follows the last separator; all of \<open>p\<close> without one.\<close>

definition after_last_sep :: "string \<Rightarrow> string" where
  "after_last_sep p = rev (takeWhile (\<lambda>c. c \<noteq> sep) (rev p))"

text \<open>\<^verbatim>\<open>p[:p.rfind('/') + 1]\<close>: up to and including the last separator.\<close>

definition upto_last_sep :: "string \<Rightarrow> string" where
  "upto_last_sep p = rev (dropWhile (\<lambda>c. c \<noteq> sep) (rev p))"

definition rstrip_sep :: "string \<Rightarrow> string" where
  "rstrip_sep p = rev (dropWhile (\<lambda>c. c = sep) (rev p))"

text \<open>
  \<^verbatim>\<open>
  def split(p):
      i = p.rfind(sep) + 1
      head, tail = p[:i], p[i:]
      if head and head != sep*len(head):
          head = head.rstrip(sep)
      return head, tail
  \<close>
\<close>

definition path_split :: "string \<Rightarrow> string \<times> string" where
  "path_split p =
     (let head = upto_last_sep p; tail = after_last_sep p
      in (if head \<noteq> [] \<and> head \<noteq> replicate (length head) sep
          then rstrip_sep head else head, tail))"

text \<open>\<^verbatim>\<open>os.path.basename(p)\<close> is \<^verbatim>\<open>p[p.rfind('/') + 1:]\<close>.\<close>

definition basename :: "string \<Rightarrow> string" where
  "basename p = after_last_sep p"

text \<open>\<^verbatim>\<open>path.split('/')\<close>: the pieces between the separators, empty ones included.\<close>

fun split_sep :: "string \<Rightarrow> string list" where
  "split_sep [] = [[]]"
| "split_sep (c # cs) =
     (if c = sep then [] # split_sep cs
      else case split_sep cs of
             [] \<Rightarrow> [[c]]
           | w # ws \<Rightarrow> (c # w) # ws)"

text \<open>\<^verbatim>\<open>'/'.join(comps)\<close>\<close>

fun join_sep :: "string list \<Rightarrow> string" where
  "join_sep [] = []"
| "join_sep [w] = w"
| "join_sep (w # ws) = w @ sep # join_sep ws"

text \<open>
  \<^verbatim>\<open>
  initial_slashes = path.startswith(sep)
  if (initial_slashes and
      path.startswith(sep*2) and not path.startswith(sep*3)):
      initial_slashes = 2
  \<close>
\<close>

definition initial_slashes :: "string \<Rightarrow> nat" where
  "initial_slashes path =
     (if take 1 path = [sep]
      then (if take 2 path = [sep, sep] \<and> take 3 path \<noteq> [sep, sep, sep] then 2 else 1)
      else 0)"

text \<open>
  \<^verbatim>\<open>
  for comp in comps:
      if comp in (empty, dot):
          continue
      if (comp != dotdot or (not initial_slashes and not new_comps) or
           (new_comps and new_comps[-1] == dotdot)):
          new_comps.append(comp)
      elif new_comps:
          new_comps.pop()
  \<close>
\<close>

fun norm_comps :: "bool \<Rightarrow> string list \<Rightarrow> string list \<Rightarrow> string list" where
  "norm_comps rooted [] new_comps = new_comps"
| "norm_comps rooted (component # comps) new_comps =
     norm_comps rooted comps
       (if component = [] \<or> component = ''.'' then new_comps
        else if component \<noteq> ''..'' \<or> (\<not> rooted \<and> new_comps = [])
                \<or> (new_comps \<noteq> [] \<and> last new_comps = ''..'')
             then new_comps @ [component]
        else if new_comps \<noteq> [] then butlast new_comps
        else new_comps)"

text \<open>
  \<^verbatim>\<open>os.path.normpath\<close>: the empty path is \<open>.\<close>; otherwise the components are
  normalised, joined, and the initial separators put back; an empty result is \<open>.\<close>.
\<close>

definition normpath :: "string \<Rightarrow> string" where
  "normpath path =
     (if path = [] then ''.''
      else let n = initial_slashes path;
               comps = norm_comps (n \<noteq> 0) (split_sep path) [];
               path' = replicate n sep @ join_sep comps
           in if path' = [] then ''.'' else path')"

text \<open>
  \<^verbatim>\<open>
  def join(a, *p):
      path = a
      for b in p:
          if b.startswith(sep):
              path = b
          elif not path or path.endswith(sep):
              path += b
          else:
              path += sep + b
      return path
  \<close>
\<close>

fun path_join :: "string \<Rightarrow> string list \<Rightarrow> string" where
  "path_join path [] = path"
| "path_join path (b # bs) =
     path_join
       (if take 1 b = [sep] then b
        else if path = [] \<or> last path = sep then path @ b
        else path @ sep # b) bs"

text \<open>
  The path resolver of the test suites, which every test writes in line:
  \<^verbatim>\<open>os.path.join(expected_fixture, os.path.basename(os.path.normpath(dir_index)), ...)\<close>.
\<close>

definition expected_path :: "string \<Rightarrow> string \<Rightarrow> string list \<Rightarrow> string" where
  "expected_path expected_fixture dir names =
     path_join expected_fixture (basename (normpath dir) # names)"

section \<open>Parameter names and tables\<close>

text \<open>
  Modelled from the spec: the module \<^verbatim>\<open>riboviz.params\<close>, which binds the names
  \<^verbatim>\<open>params.BUFFER\<close>, ... to the parameter names and holds \<^verbatim>\<open>DEFAULT_JOB_CONFIG\<close>, is
  not among the sources. The names and the job defaults are those listed in the
  documentation of \<^verbatim>\<open>upgrade_config.py\<close> (\<open>Buffer => buffer\<close>, \<open>job_memory: 8G\<close>, ...);
  \<^verbatim>\<open>FQ_FILES\<close> and \<^verbatim>\<open>NEXTFLOW_RESUME\<close>, which that documentation does not list, are
  \<open>fq_files\<close> and \<open>nextflow_resume\<close>.
\<close>

definition RRNA_INDEX_PREFIX :: string where
  "RRNA_INDEX_PREFIX = ''rrna_index_prefix''"

definition ORF_INDEX_PREFIX :: string where
  "ORF_INDEX_PREFIX = ''orf_index_prefix''"

definition STOP_IN_FEATURE :: string where
  "STOP_IN_FEATURE = ''stop_in_feature''"

definition NEXTFLOW_RESUME :: string where
  "NEXTFLOW_RESUME = ''nextflow_resume''"

definition DEFAULT_JOB_CONFIG :: "(string \<times> yaml) list" where
  "DEFAULT_JOB_CONFIG =
    [(''job_email'', YNull),
     (''job_email_events'', YStr ''beas''),
     (''job_memory'', YStr ''8G''),
     (''job_name'', YStr ''riboviz''),
     (''job_num_cpus'', YInt 4),
     (''job_parallel_env'', YStr ''mpi''),
     (''job_runtime'', YStr ''48:00:00''),
     (''nextflow_dag_file'', YStr ''nextflow-dag.html''),
     (''nextflow_report_file'', YStr ''nextflow-report.html''),
     (NEXTFLOW_RESUME, YBool False),
     (''nextflow_timeline_file'', YStr ''nextflow-timeline.html''),
     (''nextflow_trace_file'', YStr ''nextflow-trace.tsv''),
     (''nextflow_work_dir'', YStr ''work''),
     (''validate_only'', YBool False)]"

text \<open>
  The tables of \<^verbatim>\<open>upgrade_config.py\<close>, in the order the source writes them, which is the
  order in which \<^verbatim>\<open>RENAMES.items()\<close> and \<^verbatim>\<open>UPDATES.items()\<close> yield them.
\<close>

definition RENAMES :: "(string \<times> string) list" where
  "RENAMES =
    [(''Buffer'', ''buffer''),
     (''MaxReadLen'', ''max_read_length''),
     (''MinReadLen'', ''min_read_length''),
     (''PrimaryID'', ''primary_id''),
     (''SecondID'', ''secondary_id''),
     (''StopInCDS'', STOP_IN_FEATURE),
     (''codon_pos'', ''codon_positions_file''),
     (''nprocesses'', ''num_processes''),
     (''orf_fasta'', ''orf_fasta_file''),
     (''orf_index'', ORF_INDEX_PREFIX),
     (''rRNA_fasta'', ''rrna_fasta_file''),
     (''rRNA_index'', RRNA_INDEX_PREFIX),
     (''ribovizGFF'', ''is_riboviz_gff''),
     (''stop_in_cds'', STOP_IN_FEATURE),
     (''t_rna'', ''t_rna_file''),
     (''do_pos_sp_nt_freq'', ''output_metagene_normalized_profile'')]"

definition UPDATES :: "(string \<times> yaml) list" where
  "UPDATES =
    [(''asite_disp_length_file'', YNull),
     (''output_metagene_normalized_profile'', YBool True),
     (''codon_positions_file'', YNull),
     (''count_reads'', YBool True),
     (''count_threshold'', YInt 64),
     (''dedup_stats'', YBool False),
     (''dedup_umis'', YBool False),
     (''extract_umis'', YBool False),
     (''feature'', YStr ''CDS''),
     (''features_file'', YNull),
     (''fq_files'', YNull),
     (''group_umis'', YBool False),
     (''multiplex_fq_files'', YNull),
     (''output_pdfs'', YBool True),
     (''publish_index_tmp'', YBool False),
     (''run_static_html'', YBool True),
     (''sample_sheet'', YNull),
     (''samsort_memory'', YNull),
     (STOP_IN_FEATURE, YBool False),
     (''trim_5p_mismatches'', YBool True),
     (''t_rna_file'', YNull),
     (''umi_regexp'', YNull)]"

definition UNUSED :: "string list" where
  "UNUSED = [''aligner'', ''isTestRun'', ''is_test_run'', ''cmd_file'', ''dir_logs'']"

section \<open>The four passes of upgrade_config\<close>

text \<open>
  \<^verbatim>\<open>
  for (old_key, new_key) in list(RENAMES.items()):
      if old_key in config:
          value = config[old_key]
          del config[old_key]
          config[new_key] = value
  \<close>
\<close>

fun rename_pass :: "(string \<times> string) list \<Rightarrow> config \<Rightarrow> config" where
  "rename_pass [] config = config"
| "rename_pass ((old_key, new_key) # rs) config =
     rename_pass rs
       (case config old_key of
          None \<Rightarrow> config
        | Some v \<Rightarrow> (config(old_key := None))(new_key \<mapsto> v))"

text \<open>
  \<^verbatim>\<open>
  for (key, value) in list(UPDATES.items()):
      if key not in config:
          config[key] = value
  \<close>
\<close>

fun add_defaults :: "(string \<times> yaml) list \<Rightarrow> config \<Rightarrow> config" where
  "add_defaults [] config = config"
| "add_defaults ((key, v) # ds) config =
     add_defaults ds (if config key = None then config(key \<mapsto> v) else config)"

text \<open>
  \<^verbatim>\<open>job_config = params.DEFAULT_JOB_CONFIG.copy(); del job_config[params.NEXTFLOW_RESUME]\<close>:
  deleting a key that the dictionary does not hold raises \<^verbatim>\<open>KeyError\<close>.
\<close>

definition del_key :: "string \<Rightarrow> (string \<times> 'v) list \<Rightarrow> error + (string \<times> 'v) list" where
  "del_key key d =
     (if key \<in> fst ` set d then Inr (filter (\<lambda>kv. fst kv \<noteq> key) d) else Inl (KeyError key))"

text \<open>
  \<^verbatim>\<open>
  for key in [params.RRNA_INDEX_PREFIX, params.ORF_INDEX_PREFIX]:
      prefix = os.path.split(config[key])[1]
      config[key] = prefix
  \<close>
  \<^verbatim>\<open>config[key]\<close> raises \<^verbatim>\<open>KeyError\<close> on an absent key, and \<^verbatim>\<open>os.path.split\<close> raises
  \<^verbatim>\<open>TypeError\<close> on a value that is not a string.
\<close>

fun index_prefix_pass :: "string list \<Rightarrow> config \<Rightarrow> error + config" where
  "index_prefix_pass [] config = Inr config"
| "index_prefix_pass (key # ks) config =
     (case config key of
        None \<Rightarrow> Inl (KeyError key)
      | Some (YStr p) \<Rightarrow> index_prefix_pass ks (config(key \<mapsto> YStr (snd (path_split p))))
      | Some _ \<Rightarrow> Inl TypeError)"

text \<open>
  \<^verbatim>\<open>
  for key in UNUSED:
      if key in config:
          del config[key]
  \<close>
\<close>

fun remove_unused :: "string list \<Rightarrow> config \<Rightarrow> config" where
  "remove_unused [] config = config"
| "remove_unused (key # ks) config =
     remove_unused ks (if config key \<noteq> None then config(key := None) else config)"

text \<open>
  \<^verbatim>\<open>upgrade_config\<close> updates the dictionary in place and returns nothing; the model
  returns the updated dictionary, or the exception raised.
\<close>

definition upgrade_config :: "config \<Rightarrow> error + config" where
  "upgrade_config config =
     (let config1 = rename_pass RENAMES config;
          config2 = add_defaults UPDATES config1
      in case del_key NEXTFLOW_RESUME DEFAULT_JOB_CONFIG of
           Inl e \<Rightarrow> Inl e
         | Inr job_config \<Rightarrow>
             (case index_prefix_pass [RRNA_INDEX_PREFIX, ORF_INDEX_PREFIX]
                     (add_defaults job_config config2) of
                Inl e \<Rightarrow> Inl e
              | Inr config4 \<Rightarrow> Inr (remove_unused UNUSED config4)))"

text \<open>The job defaults once \<^verbatim>\<open>params.NEXTFLOW_RESUME\<close> is deleted from the copy.\<close>

definition job_config :: "(string \<times> yaml) list" where
  "job_config = filter (\<lambda>kv. fst kv \<noteq> NEXTFLOW_RESUME) DEFAULT_JOB_CONFIG"

text \<open>The default-injection pass: the loop over \<^verbatim>\<open>UPDATES\<close>, then the one over the job defaults.\<close>

definition default_pass :: "config \<Rightarrow> config" where
  "default_pass config = add_defaults job_config (add_defaults UPDATES config)"

text \<open>
  \<^verbatim>\<open>upgrade_config(config); config.get(key)\<close>: the value of one key once the
  configuration has been upgraded, or the exception raised.
\<close>

definition value_after_upgrade :: "config \<Rightarrow> string \<Rightarrow> error + yaml option" where
  "value_after_upgrade config key =
     (case upgrade_config config of Inl e \<Rightarrow> Inl e | Inr config' \<Rightarrow> Inr (config' key))"

text \<open>The legacy names listed after \<open>old_key\<close> in a rename table with the same new name.\<close>

fun later_same_target :: "(string \<times> string) list \<Rightarrow> string \<Rightarrow> string list" where
  "later_same_target [] old_key = []"
| "later_same_target ((k, new_key) # rs) old_key =
     (if k = old_key then map fst (filter (\<lambda>r. snd r = new_key) rs)
      else later_same_target rs old_key)"

section \<open>upgrade_config_file\<close>

text \<open>
  The file system and the YAML reader, as far as \<^verbatim>\<open>upgrade_config_file\<close> uses them:
  \<^verbatim>\<open>os.path.exists\<close>, \<^verbatim>\<open>os.path.isfile\<close>, \<^verbatim>\<open>open\<close> followed by \<^verbatim>\<open>yaml.load\<close>
  (\<open>None\<close> when either raises; the document of a configuration file is a mapping), and
  whether \<^verbatim>\<open>open(output_file, 'w')\<close> succeeds.
\<close>

record filesystem =
  path_exists :: "string \<Rightarrow> bool"
  path_isfile :: "string \<Rightarrow> bool"
  yaml_load :: "string \<Rightarrow> config option"
  writable :: "string \<Rightarrow> bool"

datatype written = Written string config | Printed config

definition upgrade_config_file ::
  "filesystem \<Rightarrow> string \<Rightarrow> string option \<Rightarrow> error + written" where
  "upgrade_config_file fs input_file output_file =
     (if \<not> (path_exists fs input_file \<and> path_isfile fs input_file) then Inl AssertionError
      else case yaml_load fs input_file of
             None \<Rightarrow> Inl LoadError
           | Some config \<Rightarrow>
               (case upgrade_config config of
                  Inl e \<Rightarrow> Inl e
                | Inr config' \<Rightarrow>
                    (case output_file of
                       Some f \<Rightarrow> if writable fs f then Inr (Written f config') else Inl LoadError
                     | None \<Rightarrow> Inr (Printed config'))))"

section \<open>Example configurations\<close>

text \<open>A configuration in the old schema, with the index paths of the module's documentation.\<close>

definition vignette_legacy :: config where
  "vignette_legacy =
     [''rRNA_index'' \<mapsto> YStr ''vignette/index/yeast_rRNA'',
      ''orf_index'' \<mapsto> YStr ''vignette/index/YAL_CDS_w_250'',
      ''Buffer'' \<mapsto> YInt 250,
      ''StopInCDS'' \<mapsto> YBool True,
      ''count_threshold'' \<mapsto> YStr ''many'',
      ''no_such_parameter'' \<mapsto> YInt 1,
      ''aligner'' \<mapsto> YStr ''hisat2'']"

text \<open>A configuration whose index prefixes name directories, with a trailing separator.\<close>

definition trailing_sep_config :: config where
  "trailing_sep_config =
     [''rrna_index_prefix'' \<mapsto> YStr ''vignette/index/'',
      ''orf_index_prefix'' \<mapsto> YStr ''vignette/index/'']"

text \<open>A configuration that holds both legacy spellings of \<open>stop_in_feature\<close>.\<close>

definition both_stop_keys :: config where
  "both_stop_keys =
     [''rrna_index_prefix'' \<mapsto> YStr ''yeast_rRNA'',
      ''orf_index_prefix'' \<mapsto> YStr ''YAL_CDS_w_250'',
      ''StopInCDS'' \<mapsto> YBool True,
      ''stop_in_cds'' \<mapsto> YBool False]"

text \<open>The empty mapping, and a mapping whose rRNA index prefix is a number.\<close>

definition empty_config :: config where
  "empty_config = Map.empty"

definition numeric_index_config :: config where
  "numeric_index_config =
     [''rrna_index_prefix'' \<mapsto> YInt 5,
      ''orf_index_prefix'' \<mapsto> YStr ''YAL_CDS_w_250'']"

text \<open>A file system whose only file is a configuration file that holds \<open>vignette_legacy\<close>.\<close>

definition vignette_fs :: filesystem where
  "vignette_fs =
     \<lparr>path_exists = (\<lambda>p. p = ''vignette/vignette_config.yaml''),
      path_isfile = (\<lambda>p. p = ''vignette/vignette_config.yaml''),
      yaml_load = (\<lambda>p. if p = ''vignette/vignette_config.yaml'' then Some vignette_legacy else None),
      writable = (\<lambda>p. True)\<rparr>"

section \<open>The checks of the test suites\<close>

text \<open>
  A check of \<^verbatim>\<open>test_integration.py\<close> or \<^verbatim>\<open>test_regression.py\<close> ends in one of four
  ways: its body returns (passed), an \<^verbatim>\<open>assert\<close> of the body or a comparator raises
  (failed), \<^verbatim>\<open>pytest.skip(reason)\<close> is called (skipped), or the fixture
  \<^verbatim>\<open>prep_riboviz_fixture\<close>, which both modules define and every check uses, raises
  before the body runs (pytest reports an error of the check).

  The other fixtures (\<^verbatim>\<open>skip_index_tmp_fixture\<close>, and those that carry the command line
  and the configuration) are defined in \<^verbatim>\<open>conftest.py\<close>, which is not among the sources.
  For a check marked with \<^verbatim>\<open>skip_index_tmp_fixture\<close> the model is of a run in which that
  fixture lets the check proceed.
\<close>

datatype outcome = Passed | Failed | Skipped string | Errored

text \<open>
  The comparators the checks call: \<^verbatim>\<open>utils.equal_file_sizes\<close>, \<^verbatim>\<open>fastq.equal_fastq\<close>,
  \<^verbatim>\<open>sam_bam.equal_bam\<close>, \<^verbatim>\<open>utils.equal_tsv\<close>, \<^verbatim>\<open>bedgraph.equal_bedgraph\<close>,
  \<^verbatim>\<open>html.equal_html\<close>, \<^verbatim>\<open>count_reads.equal_read_counts\<close> and, in the regression
  suite, \<^verbatim>\<open>compare_files.compare_files\<close>.
\<close>

datatype comparator =
    Equal_file_sizes
  | Equal_fastq
  | Equal_bam
  | Equal_tsv
  | Equal_bedgraph
  | Equal_html
  | Equal_read_counts
  | Compare_files

text \<open>A comparison that a check has made: the comparator, the expected and the actual file.\<close>

type_synonym comparison = "comparator \<times> string \<times> string"

text \<open>
  What a check sees of the outside: \<^verbatim>\<open>os.path.exists\<close>; whether a comparator returns
  on two files (\<open>True\<close>) or raises; and the exit codes of \<^verbatim>\<open>nextflow.run_nextflow\<close>
  (with the environment variables of the run) and of \<^verbatim>\<open>prep_riboviz.prep_riboviz\<close> on a
  configuration file.
\<close>

record world =
  file_exists :: "string \<Rightarrow> bool"
  equal_files :: "comparator \<Rightarrow> string \<Rightarrow> string \<Rightarrow> bool"
  run_nextflow :: "string \<Rightarrow> int"
  prep_riboviz :: "string \<Rightarrow> int"

text \<open>
  The statements of a test body, in order: \<^verbatim>\<open>if c: pytest.skip(reason)\<close>,
  \<^verbatim>\<open>assert c\<close>, \<^verbatim>\<open>if c: return\<close> and a call of a comparator. \<open>run_test\<close> gives the
  outcome and the comparisons made until then.
\<close>

datatype step =
    Skip_if bool string
  | Assert bool
  | Return_if bool
  | Compare comparator string string

fun run_test :: "world \<Rightarrow> step list \<Rightarrow> outcome \<times> comparison list" where
  "run_test w [] = (Passed, [])"
| "run_test w (Skip_if c reason # steps) =
     (if c then (Skipped reason, []) else run_test w steps)"
| "run_test w (Assert c # steps) =
     (if c then run_test w steps else (Failed, []))"
| "run_test w (Return_if c # steps) =
     (if c then (Passed, []) else run_test w steps)"
| "run_test w (Compare cmp expected actual # steps) =
     (if equal_files w cmp expected actual
      then (fst (run_test w steps), (cmp, expected, actual) # snd (run_test w steps))
      else (Failed, [(cmp, expected, actual)]))"

text \<open>
  The file names of \<^verbatim>\<open>riboviz.workflow_files\<close>, \<^verbatim>\<open>riboviz.sam_bam\<close> and
  \<^verbatim>\<open>riboviz.hisat2\<close>, modules that are not among the sources: the checks take them as
  parameters. A format with one placeholder is a function of the string filled in.
\<close>

record file_names =
  HT2_FORMAT :: "string \<Rightarrow> nat \<Rightarrow> string"
  UMI_EXTRACT_FQ :: string
  PRE_DEDUP_BAM :: string
  DEDUP_BAM :: string
  BAM_FORMAT :: "string \<Rightarrow> string"
  BAI_FORMAT :: "string \<Rightarrow> string"
  DEDUP_STATS_FORMAT :: "string \<Rightarrow> string"
  PRE_DEDUP_GROUPS_TSV :: string
  POST_DEDUP_GROUPS_TSV :: string
  STATIC_HTML_FILE :: "string \<Rightarrow> string"
  READ_COUNTS_PER_FILE_FILE :: string

text \<open>
  The fixtures that carry the command line and the configuration into the checks: the
  directory of expected results, the directories and the index prefix of the
  configuration, its feature flags, whether Nextflow was asked for, whether the workflow
  is not to be run, and the configuration file. A test function
  receives the fixtures that its parameters name. The regression suite calls the three
  directories \<^verbatim>\<open>index_dir\<close>, \<^verbatim>\<open>tmp_dir\<close> and \<^verbatim>\<open>output_dir\<close>.
\<close>

record session =
  expected_fixture :: string
  dir_index :: string
  dir_tmp :: string
  dir_out :: string
  index_prefix :: string
  build_indices :: bool
  extract_umis :: bool
  dedup_umis :: bool
  dedup_stats :: bool
  group_umis :: bool
  make_bedgraph :: bool
  output_pdfs :: bool
  run_static_html :: bool
  count_reads :: bool
  nextflow_fixture :: bool
  skip_workflow_fixture :: bool
  config_fixture :: string

text \<open>
  \<^verbatim>\<open>
  @pytest.fixture(scope="module")
  def prep_riboviz_fixture(skip_workflow_fixture, config_fixture):
      if not skip_workflow_fixture:
          env_vars = environment.get_environment_vars()
          exit_code = nextflow.run_nextflow(config_fixture, envs=env_vars)
          assert exit_code == 0, ...
  \<close>
  in \<^verbatim>\<open>test_integration.py\<close>.
\<close>

definition prep_riboviz_fixture :: "world \<Rightarrow> session \<Rightarrow> error + unit" where
  "prep_riboviz_fixture w s =
     (if \<not> skip_workflow_fixture s
      then (let exit_code = run_nextflow w (config_fixture s)
            in if exit_code = 0 then Inr () else Inl AssertionError)
      else Inr ())"

text \<open>
  In \<^verbatim>\<open>test_regression.py\<close> the fixture runs \<^verbatim>\<open>prep_riboviz.prep_riboviz(config_fixture)\<close>
  unless \<^verbatim>\<open>nextflow_fixture\<close> is set, and Nextflow otherwise.
\<close>

definition regression_prep_riboviz_fixture :: "world \<Rightarrow> session \<Rightarrow> error + unit" where
  "regression_prep_riboviz_fixture w s =
     (if \<not> skip_workflow_fixture s
      then (let exit_code = (if \<not> nextflow_fixture s then prep_riboviz w (config_fixture s)
                             else run_nextflow w (config_fixture s))
            in if exit_code = 0 then Inr () else Inl AssertionError)
      else Inr ())"

text \<open>
  \<^verbatim>\<open>@pytest.mark.usefixtures("prep_riboviz_fixture")\<close>: the fixture is set up before the
  body of the check runs; when it raises, the body does not run and the check is an error.
\<close>

definition usefixtures ::
  "error + unit \<Rightarrow> outcome \<times> comparison list \<Rightarrow> outcome \<times> comparison list" where
  "usefixtures fixture body = (case fixture of Inl e \<Rightarrow> (Errored, []) | Inr u \<Rightarrow> body)"

text \<open>A check was skipped, with a reason given, before any comparison was made.\<close>

fun skipped :: "outcome \<times> comparison list \<Rightarrow> bool" where
  "skipped (Skipped reason, cs) = (reason \<noteq> [] \<and> cs = [])"
| "skipped (Passed, cs) = False"
| "skipped (Failed, cs) = False"
| "skipped (Errored, cs) = False"

subsection \<open>test_integration.py\<close>

definition test_hisat2_build_index :: "file_names \<Rightarrow> world \<Rightarrow> session \<Rightarrow> nat \<Rightarrow> outcome \<times> comparison list" where
  "test_hisat2_build_index nm w s index =
     usefixtures (prep_riboviz_fixture w s)
       (let file_name = HT2_FORMAT nm (index_prefix s) index
        in run_test w
          [Skip_if (\<not> build_indices s) ''Skipped test as build_indices: '',
           Compare Equal_file_sizes
             (expected_path (expected_fixture s) (dir_index s) [file_name])
             (path_join (dir_index s) [file_name])])"

definition test_umitools_extract_fq :: "file_names \<Rightarrow> world \<Rightarrow> session \<Rightarrow> string \<Rightarrow> outcome \<times> comparison list" where
  "test_umitools_extract_fq nm w s sample =
     usefixtures (prep_riboviz_fixture w s)
       (run_test w
          [Skip_if (\<not> extract_umis s) ''Skipped test applicable to UMI extraction'',
           Compare Equal_fastq
             (expected_path (expected_fixture s) (dir_tmp s) [sample, UMI_EXTRACT_FQ nm])
             (path_join (dir_tmp s) [sample, UMI_EXTRACT_FQ nm])])"

definition test_samtools_index_dedup_bam :: "file_names \<Rightarrow> world \<Rightarrow> session \<Rightarrow> string \<Rightarrow> outcome \<times> comparison list" where
  "test_samtools_index_dedup_bam nm w s sample =
     usefixtures (prep_riboviz_fixture w s)
       (let actual_file = path_join (dir_tmp s) [sample, DEDUP_BAM nm];
            actual_bai_file = path_join (dir_tmp s) [sample, BAI_FORMAT nm (DEDUP_BAM nm)]
        in run_test w
          [Skip_if (\<not> dedup_umis s) ''Skipped test applicable to UMI deduplication'',
           Assert (file_exists w actual_file),
           Assert (file_exists w actual_bai_file)])"

definition test_samtools_view_sort_index :: "file_names \<Rightarrow> world \<Rightarrow> session \<Rightarrow> string \<Rightarrow> outcome \<times> comparison list" where
  "test_samtools_view_sort_index nm w s sample =
     usefixtures (prep_riboviz_fixture w s)
       (let file_name = BAM_FORMAT nm sample;
            bai_file_name = BAI_FORMAT nm file_name;
            expected_file = expected_path (expected_fixture s) (dir_out s) [sample, file_name];
            actual_file = path_join (dir_out s) [sample, file_name];
            expected_bai_file = expected_path (expected_fixture s) (dir_out s) [sample, bai_file_name];
            actual_bai_file = path_join (dir_out s) [sample, bai_file_name]
        in run_test w
          [Skip_if (\<not> file_exists w expected_file) ''Skipped as expected file does not exist'',
           Assert (file_exists w actual_file),
           Assert (file_exists w actual_bai_file),
           Return_if (dedup_umis s),
           Compare Equal_bam expected_file actual_file,
           Compare Equal_file_sizes expected_bai_file actual_bai_file])"

definition test_umitools_dedup_stats_tsv :: "file_names \<Rightarrow> world \<Rightarrow> session \<Rightarrow> string \<Rightarrow> string \<Rightarrow> outcome \<times> comparison list" where
  "test_umitools_dedup_stats_tsv nm w s sample stats_file =
     usefixtures (prep_riboviz_fixture w s)
       (let file_name = path_join sample [DEDUP_STATS_FORMAT nm stats_file];
            expected_file = expected_path (expected_fixture s) (dir_tmp s) [file_name];
            actual_file = path_join (dir_tmp s) [file_name]
        in run_test w
          [Skip_if (\<not> dedup_umis s) ''Skipped test as dedup_umis: '',
           Skip_if (\<not> dedup_stats s) ''Skipped test as dedup_stats: '',
           Skip_if (\<not> file_exists w expected_file) ''Skipped as expected file does not exist'',
           Assert (file_exists w actual_file)])"

definition test_umitools_pre_dedup_group_tsv :: "file_names \<Rightarrow> world \<Rightarrow> session \<Rightarrow> string \<Rightarrow> outcome \<times> comparison list" where
  "test_umitools_pre_dedup_group_tsv nm w s sample =
     usefixtures (prep_riboviz_fixture w s)
       (run_test w
          [Skip_if (\<not> dedup_umis s) ''Skipped test as dedup_umis: '',
           Skip_if (\<not> group_umis s) ''Skipped test as group_umis: '',
           Compare Equal_tsv
             (expected_path (expected_fixture s) (dir_tmp s) [sample, PRE_DEDUP_GROUPS_TSV nm])
             (path_join (dir_tmp s) [sample, PRE_DEDUP_GROUPS_TSV nm])])"

definition test_umitools_post_dedup_group_tsv :: "file_names \<Rightarrow> world \<Rightarrow> session \<Rightarrow> string \<Rightarrow> outcome \<times> comparison list" where
  "test_umitools_post_dedup_group_tsv nm w s sample =
     usefixtures (prep_riboviz_fixture w s)
       (let actual_file = path_join (dir_tmp s) [sample, POST_DEDUP_GROUPS_TSV nm]
        in run_test w
          [Skip_if (\<not> dedup_umis s) ''Skipped test as dedup_umis: '',
           Skip_if (\<not> group_umis s) ''Skipped test as group_umis: '',
           Assert (file_exists w actual_file)])"

definition test_bedtools_bedgraph :: "world \<Rightarrow> session \<Rightarrow> string \<Rightarrow> string \<Rightarrow> outcome \<times> comparison list" where
  "test_bedtools_bedgraph w s sample file_name =
     usefixtures (prep_riboviz_fixture w s)
       (let expected_file = expected_path (expected_fixture s) (dir_out s) [sample, file_name]
        in run_test w
          [Skip_if (\<not> make_bedgraph s) ''Skipped test as make_bedgraph: '',
           Compare Equal_bedgraph expected_file (path_join (dir_out s) [sample, file_name])])"

definition test_generate_stats_figs_pdf :: "world \<Rightarrow> session \<Rightarrow> string \<Rightarrow> string \<Rightarrow> outcome \<times> comparison list" where
  "test_generate_stats_figs_pdf w s sample file_name =
     usefixtures (prep_riboviz_fixture w s)
       (let expected_file = expected_path (expected_fixture s) (dir_out s) [sample, file_name];
            actual_file = path_join (dir_out s) [sample, file_name]
        in run_test w
          [Skip_if (\<not> output_pdfs s) ''Skipped testing for pdfs as pdfs not generated'',
           Skip_if (\<not> file_exists w expected_file) ''Skipped as expected file does not exist'',
           Assert (file_exists w actual_file)])"

definition test_analysis_outputs_html :: "file_names \<Rightarrow> world \<Rightarrow> session \<Rightarrow> string \<Rightarrow> outcome \<times> comparison list" where
  "test_analysis_outputs_html nm w s sample =
     usefixtures (prep_riboviz_fixture w s)
       (let file_name = STATIC_HTML_FILE nm sample;
            expected_file = expected_path (expected_fixture s) (dir_out s) [sample, file_name]
        in run_test w
          [Skip_if (\<not> run_static_html s) ''Skipped test as run_static_html: '',
           Assert (file_exists w (path_join (dir_out s) [sample, file_name])),
           Compare Equal_html expected_file (path_join (dir_out s) [sample, file_name])])"

definition test_read_counts_per_file_tsv :: "file_names \<Rightarrow> world \<Rightarrow> session \<Rightarrow> outcome \<times> comparison list" where
  "test_read_counts_per_file_tsv nm w s =
     usefixtures (prep_riboviz_fixture w s)
       (run_test w
          [Skip_if (\<not> count_reads s) ''Skipped test as count_reads'',
           Compare Equal_read_counts
             (expected_path (expected_fixture s) (dir_out s) [READ_COUNTS_PER_FILE_FILE nm])
             (path_join (dir_out s) [READ_COUNTS_PER_FILE_FILE nm])])"

subsection \<open>test_regression.py\<close>

definition regression_test_umitools_extract_fq :: "file_names \<Rightarrow> world \<Rightarrow> session \<Rightarrow> string \<Rightarrow> outcome \<times> comparison list" where
  "regression_test_umitools_extract_fq nm w s sample =
     usefixtures (regression_prep_riboviz_fixture w s)
       (run_test w
          [Skip_if (\<not> extract_umis s) ''Skipped test applicable to UMI extraction'',
           Compare Compare_files
             (expected_path (expected_fixture s) (dir_tmp s) [sample, UMI_EXTRACT_FQ nm])
             (path_join (dir_tmp s) [sample, UMI_EXTRACT_FQ nm])])"

definition regression_test_samtools_view_sort_index_pre_dedup_bam :: "file_names \<Rightarrow> world \<Rightarrow> session \<Rightarrow> string \<Rightarrow> outcome \<times> comparison list" where
  "regression_test_samtools_view_sort_index_pre_dedup_bam nm w s sample =
     usefixtures (regression_prep_riboviz_fixture w s)
       (let bai_file_name = BAI_FORMAT nm (PRE_DEDUP_BAM nm)
        in run_test w
          [Skip_if (\<not> dedup_umis s) ''Skipped test applicable to UMI deduplication'',
           Skip_if (nextflow_fixture s) ''Skipped test not applicable to Nextflow'',
           Compare Compare_files
             (expected_path (expected_fixture s) (dir_tmp s) [sample, PRE_DEDUP_BAM nm])
             (path_join (dir_tmp s) [sample, PRE_DEDUP_BAM nm]),
           Compare Compare_files
             (expected_path (expected_fixture s) (dir_tmp s) [sample, bai_file_name])
             (path_join (dir_tmp s) [sample, bai_file_name])])"

definition regression_test_samtools_index_dedup_bam :: "file_names \<Rightarrow> world \<Rightarrow> session \<Rightarrow> string \<Rightarrow> outcome \<times> comparison list" where
  "regression_test_samtools_index_dedup_bam nm w s sample =
     usefixtures (regression_prep_riboviz_fixture w s)
       (run_test w
          [Skip_if (\<not> dedup_umis s) ''Skipped test applicable to UMI deduplication'',
           Skip_if (\<not> nextflow_fixture s) ''Skipped test applicable to Nextflow only'',
           Assert (file_exists w (path_join (dir_tmp s) [sample, DEDUP_BAM nm])),
           Assert (file_exists w (path_join (dir_tmp s) [sample, BAI_FORMAT nm (DEDUP_BAM nm)]))])"

definition regression_test_samtools_view_sort_index :: "file_names \<Rightarrow> world \<Rightarrow> session \<Rightarrow> string \<Rightarrow> outcome \<times> comparison list" where
  "regression_test_samtools_view_sort_index nm w s sample =
     usefixtures (regression_prep_riboviz_fixture w s)
       (let file_name = BAM_FORMAT nm sample;
            bai_file_name = BAI_FORMAT nm file_name;
            expected_file = expected_path (expected_fixture s) (dir_out s) [sample, file_name];
            expected_bai_file = expected_path (expected_fixture s) (dir_out s) [sample, bai_file_name];
            actual_file = path_join (dir_out s) [sample, file_name];
            actual_bai_file = path_join (dir_out s) [sample, bai_file_name]
        in run_test w
          [Skip_if (\<not> file_exists w expected_file) ''Skipped as expected file does not exist'',
           Assert (file_exists w actual_file),
           Assert (file_exists w actual_bai_file),
           Return_if (dedup_umis s),
           Compare Compare_files expected_file actual_file,
           Compare Compare_files expected_bai_file actual_bai_file])"

definition regression_test_umitools_dedup_stats_tsv :: "file_names \<Rightarrow> world \<Rightarrow> session \<Rightarrow> string \<Rightarrow> string \<Rightarrow> outcome \<times> comparison list" where
  "regression_test_umitools_dedup_stats_tsv nm w s sample stats_file =
     usefixtures (regression_prep_riboviz_fixture w s)
       (let file_name = path_join sample [DEDUP_STATS_FORMAT nm stats_file];
            expected_file = expected_path (expected_fixture s) (dir_tmp s) [file_name];
            actual_file = path_join (dir_tmp s) [file_name]
        in run_test w
          [Skip_if (\<not> dedup_umis s) ''Skipped test applicable to UMI deduplication'',
           Skip_if (\<not> dedup_stats s) ''Skipped test applicable to UMI deduplication statistics'',
           Skip_if (\<not> file_exists w expected_file) ''Skipped as expected file does not exist'',
           Assert (file_exists w actual_file)])"

definition regression_test_umitools_pre_dedup_group_tsv :: "file_names \<Rightarrow> world \<Rightarrow> session \<Rightarrow> string \<Rightarrow> outcome \<times> comparison list" where
  "regression_test_umitools_pre_dedup_group_tsv nm w s sample =
     usefixtures (regression_prep_riboviz_fixture w s)
       (run_test w
          [Skip_if (\<not> group_umis s) ''Skipped test applicable to UMI groups'',
           Compare Compare_files
             (expected_path (expected_fixture s) (dir_tmp s) [sample, PRE_DEDUP_GROUPS_TSV nm])
             (path_join (dir_tmp s) [sample, PRE_DEDUP_GROUPS_TSV nm])])"

definition regression_test_umitools_post_dedup_group_tsv :: "file_names \<Rightarrow> world \<Rightarrow> session \<Rightarrow> string \<Rightarrow> outcome \<times> comparison list" where
  "regression_test_umitools_post_dedup_group_tsv nm w s sample =
     usefixtures (regression_prep_riboviz_fixture w s)
       (run_test w
          [Skip_if (\<not> group_umis s) ''Skipped test applicable to UMI groups'',
           Assert (file_exists w (path_join (dir_tmp s) [sample, POST_DEDUP_GROUPS_TSV nm]))])"

definition regression_test_bedtools_bedgraph :: "world \<Rightarrow> session \<Rightarrow> string \<Rightarrow> string \<Rightarrow> outcome \<times> comparison list" where
  "regression_test_bedtools_bedgraph w s sample file_name =
     usefixtures (regression_prep_riboviz_fixture w s)
       (let expected_file = expected_path (expected_fixture s) (dir_out s) [sample, file_name]
        in run_test w
          [Skip_if (\<not> file_exists w expected_file) ''Skipped as expected file does not exist'',
           Compare Compare_files expected_file (path_join (dir_out s) [sample, file_name])])"

subsection \<open>Example runs\<close>

text \<open>
  A session whose configuration switches every feature off, with the directories of the
  vignette, and the same session with deduplication on. Four worlds: every file exists and
  every comparator returns; every file exists and every comparator raises; no file exists;
  and the workflow exits with status 1. In the first three the workflow exits with status 0.
\<close>

definition features_off :: session where
  "features_off =
     \<lparr>expected_fixture = ''/home/user/vignette-data'',
      dir_index = ''vignette/index'',
      dir_tmp = ''vignette/tmp'',
      dir_out = ''vignette/output'',
      index_prefix = ''YAL_CDS_w_250'',
      build_indices = False, extract_umis = False, dedup_umis = False, dedup_stats = False,
      group_umis = False, make_bedgraph = False, output_pdfs = False,
      run_static_html = False, count_reads = False, nextflow_fixture = False,
      skip_workflow_fixture = False, config_fixture = ''vignette/vignette_config.yaml''\<rparr>"

definition dedup_on :: session where
  "dedup_on = features_off\<lparr>dedup_umis := True\<rparr>"

definition all_equal :: world where
  "all_equal =
     \<lparr>file_exists = (\<lambda>p. True), equal_files = (\<lambda>cmp e a. True),
      run_nextflow = (\<lambda>c. 0), prep_riboviz = (\<lambda>c. 0)\<rparr>"

definition all_differ :: world where
  "all_differ =
     \<lparr>file_exists = (\<lambda>p. True), equal_files = (\<lambda>cmp e a. False),
      run_nextflow = (\<lambda>c. 0), prep_riboviz = (\<lambda>c. 0)\<rparr>"

definition no_files :: world where
  "no_files =
     \<lparr>file_exists = (\<lambda>p. False), equal_files = (\<lambda>cmp e a. False),
      run_nextflow = (\<lambda>c. 0), prep_riboviz = (\<lambda>c. 0)\<rparr>"

definition workflow_failed :: world where
  "workflow_failed =
     \<lparr>file_exists = (\<lambda>p. True), equal_files = (\<lambda>cmp e a. True),
      run_nextflow = (\<lambda>c. 1), prep_riboviz = (\<lambda>c. 1)\<rparr>"

definition vignette_names :: file_names where
  "vignette_names =
     \<lparr>HT2_FORMAT = (\<lambda>prefix n. prefix @ ''.ht2''),
      UMI_EXTRACT_FQ = ''extract_trim.fq'',
      PRE_DEDUP_BAM = ''pre_dedup.bam'',
      DEDUP_BAM = ''dedup.bam'',
      BAM_FORMAT = (\<lambda>name. name @ ''.bam''),
      BAI_FORMAT = (\<lambda>name. name @ ''.bai''),
      DEDUP_STATS_FORMAT = (\<lambda>name. ''dedup_stats_'' @ name),
      PRE_DEDUP_GROUPS_TSV = ''pre_dedup_groups.tsv'',
      POST_DEDUP_GROUPS_TSV = ''post_dedup_groups.tsv'',
      STATIC_HTML_FILE = (\<lambda>name. name @ ''_output_report.html''),
      READ_COUNTS_PER_FILE_FILE = ''read_counts_per_file.tsv''\<rparr>"



section \<open>The passes, key by key\<close>

lemma rename_pass_other:
  "k \<notin> fst ` set rs \<Longrightarrow> k \<notin> snd ` set rs \<Longrightarrow> rename_pass rs c k = c k"
  by (induction rs arbitrary: c) (auto split: option.splits)

lemma rename_pass_stays_absent:
  "c k = None \<Longrightarrow> k \<notin> snd ` set rs \<Longrightarrow> rename_pass rs c k = None"
  by (induction rs arbitrary: c) (auto split: option.splits)

lemma rename_pass_old_absent:
  "fst ` set rs \<inter> snd ` set rs = {} \<Longrightarrow> k \<in> fst ` set rs \<Longrightarrow> rename_pass rs c k = None"
proof (induction rs arbitrary: c)
  case Nil
  then show ?case by simp
next
  case (Cons r rs)
  obtain old new where r: "r = (old, new)" by (cases r)
  let ?c = "case c old of None \<Rightarrow> c | Some v \<Rightarrow> (c(old := None))(new \<mapsto> v)"
  have disj: "fst ` set rs \<inter> snd ` set rs = {}" using Cons.prems(1) by auto
  have knew: "k \<notin> snd ` set (r # rs)" using Cons.prems by blast
  show ?case
  proof (cases "k \<in> fst ` set rs")
    case True
    then show ?thesis using Cons.IH [OF disj True] r by simp
  next
    case False
    then have k: "k = old" using Cons.prems(2) r by auto
    have "?c k = None" using k knew r by (auto split: option.splits)
    moreover have "k \<notin> snd ` set rs" using knew by auto
    ultimately have "rename_pass rs ?c k = None" by (rule rename_pass_stays_absent)
    then show ?thesis using r by simp
  qed
qed

lemma rename_pass_id:
  "\<forall>k\<in>fst ` set rs. c k = None \<Longrightarrow> rename_pass rs c = c"
  by (induction rs arbitrary: c) (auto split: option.splits)

lemma add_defaults_lookup:
  "add_defaults ds c k = (case c k of Some v \<Rightarrow> Some v | None \<Rightarrow> map_of ds k)"
  by (induction ds arbitrary: c) (auto split: option.splits)

lemma add_defaults_id:
  "\<forall>k\<in>fst ` set ds. c k \<noteq> None \<Longrightarrow> add_defaults ds c = c"
  by (induction ds arbitrary: c) (auto split: option.splits)

lemma remove_unused_lookup:
  "remove_unused ks c k = (if k \<in> set ks then None else c k)"
  by (induction ks arbitrary: c) (auto split: option.splits)

lemma remove_unused_id:
  "\<forall>k\<in>set ks. c k = None \<Longrightarrow> remove_unused ks c = c"
  by (induction ks arbitrary: c) (auto split: option.splits)

lemma after_last_sep_no_sep: "sep \<notin> set (after_last_sep p)"
  unfolding after_last_sep_def
  by (metis (mono_tags, lifting) set_rev set_takeWhileD)

lemma after_last_sep_bare:
  assumes "sep \<notin> set p"
  shows "after_last_sep p = p"
proof -
  have "\<forall>c\<in>set (rev p). c \<noteq> sep" using assms by auto
  then have "takeWhile (\<lambda>c. c \<noteq> sep) (rev p) = rev p"
    by (simp only: takeWhile_eq_all_conv)
  then show ?thesis unfolding after_last_sep_def by (simp only: rev_rev_ident)
qed


lemma snd_path_split: "snd (path_split p) = after_last_sep p"
  by (simp add: path_split_def Let_def)

lemma after_last_sep_idem: "after_last_sep (after_last_sep p) = after_last_sep p"
  by (rule after_last_sep_bare) (rule after_last_sep_no_sep)

lemma after_last_sep_trailing: "after_last_sep (p @ [sep]) = []"
  by (simp add: after_last_sep_def)

lemma index_prefix_pass_other:
  "index_prefix_pass ks c = Inr c' \<Longrightarrow> k \<notin> set ks \<Longrightarrow> c' k = c k"
  by (induction ks arbitrary: c) (auto split: option.splits yaml.splits)

lemma index_prefix_pass_key:
  "index_prefix_pass ks c = Inr c' \<Longrightarrow> k \<in> set ks \<Longrightarrow>
     \<exists>p. c k = Some (YStr p) \<and> c' k = Some (YStr (after_last_sep p))"
proof (induction ks arbitrary: c)
  case Nil
  then show ?case by simp
next
  case (Cons a ks)
  from Cons.prems(1) obtain p where p: "c a = Some (YStr p)"
    and rest: "index_prefix_pass ks (c(a \<mapsto> YStr (after_last_sep p))) = Inr c'"
    by (auto simp: snd_path_split split: option.splits yaml.splits)
  show ?case
  proof (cases "k \<in> set ks")
    case True
    from Cons.IH [OF rest True] show ?thesis
      using p by (cases "k = a") (auto simp: after_last_sep_idem)
  next
    case False
    then have "k = a" using Cons.prems(2) by simp
    then show ?thesis using index_prefix_pass_other [OF rest False] p by simp
  qed
qed

lemma index_prefix_pass_succeeds:
  "\<forall>k\<in>set ks. \<exists>p. c k = Some (YStr p) \<Longrightarrow> \<exists>c'. index_prefix_pass ks c = Inr c'"
  by (induction ks arbitrary: c) (auto split: option.splits yaml.splits)

lemma index_prefix_pass_id:
  "\<forall>k\<in>set ks. \<exists>p. c k = Some (YStr p) \<and> sep \<notin> set p \<Longrightarrow> index_prefix_pass ks c = Inr c"
proof (induction ks)
  case Nil
  then show ?case by simp
next
  case (Cons a ks)
  then obtain p where p: "c a = Some (YStr p)" "sep \<notin> set p" by auto
  then have "c(a \<mapsto> YStr (after_last_sep p)) = c"
    by (auto simp: after_last_sep_bare)
  then show ?case using Cons p by (simp add: snd_path_split)
qed

lemma index_prefix_pass_idem:
  assumes "index_prefix_pass ks c = Inr c'"
  shows "index_prefix_pass ks c' = Inr c'"
proof (rule index_prefix_pass_id, rule ballI)
  fix k assume "k \<in> set ks"
  from index_prefix_pass_key [OF assms this]
  show "\<exists>p. c' k = Some (YStr p) \<and> sep \<notin> set p"
    using after_last_sep_no_sep by auto
qed


section \<open>Facts about the tables\<close>

lemmas table_defs = RENAMES_def UPDATES_def UNUSED_def DEFAULT_JOB_CONFIG_def job_config_def
  RRNA_INDEX_PREFIX_def ORF_INDEX_PREFIX_def STOP_IN_FEATURE_def NEXTFLOW_RESUME_def

lemma del_key_job_config: "del_key NEXTFLOW_RESUME DEFAULT_JOB_CONFIG = Inr job_config"
  by (simp add: del_key_def job_config_def DEFAULT_JOB_CONFIG_def)

lemma renames_old_new_disjoint: "fst ` set RENAMES \<inter> snd ` set RENAMES = {}"
  by (simp add: table_defs)

lemma renames_old_distinct: "distinct (map fst RENAMES)"
  by (simp add: table_defs)

lemma legacy_not_default: "fst ` set RENAMES \<inter> fst ` set (UPDATES @ job_config) = {}"
  by (simp add: table_defs)

lemma legacy_not_unused: "fst ` set RENAMES \<inter> set UNUSED = {}"
  by (simp add: table_defs)

lemma legacy_not_index: "fst ` set RENAMES \<inter> {RRNA_INDEX_PREFIX, ORF_INDEX_PREFIX} = {}"
  by (simp add: table_defs)

lemma current_not_unused: "snd ` set RENAMES \<inter> set UNUSED = {}"
  by (simp add: table_defs)

lemma default_not_unused: "fst ` set (UPDATES @ job_config) \<inter> set UNUSED = {}"
  by (simp add: table_defs)

lemma default_not_index:
  "fst ` set (UPDATES @ job_config) \<inter> {RRNA_INDEX_PREFIX, ORF_INDEX_PREFIX} = {}"
  by (simp add: table_defs)

lemma defaults_distinct: "distinct (map fst (UPDATES @ job_config))"
  by (simp add: table_defs)

lemma index_not_unused: "{RRNA_INDEX_PREFIX, ORF_INDEX_PREFIX} \<inter> set UNUSED = {}"
  by (simp add: table_defs)

lemma index_is_current: "{RRNA_INDEX_PREFIX, ORF_INDEX_PREFIX} \<subseteq> snd ` set RENAMES"
  by (simp add: table_defs)


section \<open>upgrade_config, key by key\<close>

lemma upgrade_config_unfold:
  "upgrade_config c =
     (case index_prefix_pass [RRNA_INDEX_PREFIX, ORF_INDEX_PREFIX]
             (default_pass (rename_pass RENAMES c)) of
        Inl e \<Rightarrow> Inl e
      | Inr c4 \<Rightarrow> Inr (remove_unused UNUSED c4))"
  by (simp add: upgrade_config_def del_key_job_config default_pass_def Let_def)

lemma upgrade_config_InrD:
  assumes "upgrade_config c = Inr c'"
  obtains c4 where
    "index_prefix_pass [RRNA_INDEX_PREFIX, ORF_INDEX_PREFIX]
       (default_pass (rename_pass RENAMES c)) = Inr c4"
    and "c' = remove_unused UNUSED c4"
  using assms unfolding upgrade_config_unfold by (auto split: sum.splits)

lemma default_pass_lookup:
  "default_pass c k = (case c k of Some v \<Rightarrow> Some v | None \<Rightarrow> map_of (UPDATES @ job_config) k)"
  by (simp add: default_pass_def add_defaults_lookup map_add_def split: option.splits)

lemma default_pass_id:
  assumes "\<forall>k\<in>fst ` set (UPDATES @ job_config). c k \<noteq> None"
  shows "default_pass c = c"
proof -
  have "add_defaults UPDATES c = c" using assms by (intro add_defaults_id) auto
  moreover have "add_defaults job_config c = c" using assms by (intro add_defaults_id) auto
  ultimately show ?thesis by (simp add: default_pass_def)
qed

lemma upgrade_unused:
  assumes "upgrade_config c = Inr c'" and "k \<in> set UNUSED"
  shows "c' k = None"
  using assms(1) by (rule upgrade_config_InrD) (simp add: remove_unused_lookup assms(2))

lemma upgrade_other:
  assumes "upgrade_config c = Inr c'" and "k \<notin> set UNUSED"
    and "k \<noteq> RRNA_INDEX_PREFIX" and "k \<noteq> ORF_INDEX_PREFIX"
  shows "c' k = default_pass (rename_pass RENAMES c) k"
  using assms(1)
proof (rule upgrade_config_InrD)
  fix c4
  assume pass: "index_prefix_pass [RRNA_INDEX_PREFIX, ORF_INDEX_PREFIX]
       (default_pass (rename_pass RENAMES c)) = Inr c4" and c': "c' = remove_unused UNUSED c4"
  have "c4 k = default_pass (rename_pass RENAMES c) k"
    using assms(3,4) by (intro index_prefix_pass_other [OF pass]) simp
  then show ?thesis using c' assms(2) by (simp add: remove_unused_lookup)
qed

lemma default_pass_index:
  assumes "k \<in> {RRNA_INDEX_PREFIX, ORF_INDEX_PREFIX}"
  shows "default_pass c k = c k"
proof -
  have "k \<notin> fst ` set (UPDATES @ job_config)" using assms default_not_index by blast
  then have "map_of (UPDATES @ job_config) k = None" by (rule map_of_eq_None_iff [THEN iffD2])
  then show ?thesis by (simp add: default_pass_lookup split: option.splits)
qed

lemma upgrade_index:
  assumes "upgrade_config c = Inr c'" and "k \<in> {RRNA_INDEX_PREFIX, ORF_INDEX_PREFIX}"
  shows "\<exists>p. rename_pass RENAMES c k = Some (YStr p) \<and> c' k = Some (YStr (after_last_sep p))"
  using assms(1)
proof (rule upgrade_config_InrD)
  fix c4
  assume pass: "index_prefix_pass [RRNA_INDEX_PREFIX, ORF_INDEX_PREFIX]
       (default_pass (rename_pass RENAMES c)) = Inr c4" and c': "c' = remove_unused UNUSED c4"
  have "k \<in> set [RRNA_INDEX_PREFIX, ORF_INDEX_PREFIX]" using assms(2) by simp
  from index_prefix_pass_key [OF pass this] obtain p where
    "default_pass (rename_pass RENAMES c) k = Some (YStr p)" "c4 k = Some (YStr (after_last_sep p))"
    by blast
  moreover have "k \<notin> set UNUSED" using assms(2) index_not_unused by blast
  ultimately show ?thesis
    using c' default_pass_index [OF assms(2)] by (simp add: remove_unused_lookup)
qed

lemma upgrade_succeeds:
  assumes "rename_pass RENAMES c RRNA_INDEX_PREFIX = Some (YStr p)"
    and "rename_pass RENAMES c ORF_INDEX_PREFIX = Some (YStr q)"
  shows "\<exists>c'. upgrade_config c = Inr c'"
proof -
  have "\<forall>k\<in>set [RRNA_INDEX_PREFIX, ORF_INDEX_PREFIX].
          \<exists>p. default_pass (rename_pass RENAMES c) k = Some (YStr p)"
    using assms by (simp add: default_pass_index)
  from index_prefix_pass_succeeds [OF this] show ?thesis
    unfolding upgrade_config_unfold by auto
qed

lemma upgrade_legacy_absent:
  assumes "upgrade_config c = Inr c'" and "k \<in> fst ` set RENAMES"
  shows "c' k = None"
proof -
  have "k \<notin> set UNUSED" using assms(2) legacy_not_unused by blast
  moreover have "k \<notin> {RRNA_INDEX_PREFIX, ORF_INDEX_PREFIX}"
    using assms(2) legacy_not_index by blast
  ultimately have "c' k = default_pass (rename_pass RENAMES c) k"
    using assms(1) by (intro upgrade_other) simp_all
  moreover have "rename_pass RENAMES c k = None"
    using renames_old_new_disjoint assms(2) by (rule rename_pass_old_absent)
  moreover have "k \<notin> fst ` set (UPDATES @ job_config)" using assms(2) legacy_not_default by blast
  then have "map_of (UPDATES @ job_config) k = None" by (rule map_of_eq_None_iff [THEN iffD2])
  ultimately show ?thesis by (simp add: default_pass_lookup)
qed

lemma upgrade_default_present:
  assumes "upgrade_config c = Inr c'" and "k \<in> fst ` set (UPDATES @ job_config)"
  shows "c' k \<noteq> None"
proof -
  have "k \<notin> set UNUSED" using assms(2) default_not_unused by blast
  moreover have "k \<notin> {RRNA_INDEX_PREFIX, ORF_INDEX_PREFIX}"
    using assms(2) default_not_index by blast
  ultimately have "c' k = default_pass (rename_pass RENAMES c) k"
    using assms(1) by (intro upgrade_other) simp_all
  moreover have "map_of (UPDATES @ job_config) k \<noteq> None"
    using assms(2) map_of_eq_None_iff [of "UPDATES @ job_config" k] by blast
  ultimately show ?thesis
    by (cases "rename_pass RENAMES c k") (simp_all add: default_pass_lookup del: map_of_append)
qed

lemma upgrade_config_fixpoint:
  assumes "upgrade_config c = Inr c'"
  shows "upgrade_config c' = Inr c'"
proof -
  have "\<forall>k\<in>fst ` set RENAMES. c' k = None"
    by (rule ballI) (rule upgrade_legacy_absent [OF assms])
  then have 1: "rename_pass RENAMES c' = c'" by (rule rename_pass_id)
  have "\<forall>k\<in>fst ` set (UPDATES @ job_config). c' k \<noteq> None"
    by (rule ballI) (rule upgrade_default_present [OF assms])
  then have 2: "default_pass c' = c'" by (rule default_pass_id)
  have "\<forall>k\<in>set [RRNA_INDEX_PREFIX, ORF_INDEX_PREFIX]. \<exists>p. c' k = Some (YStr p) \<and> sep \<notin> set p"
  proof
    fix k assume "k \<in> set [RRNA_INDEX_PREFIX, ORF_INDEX_PREFIX]"
    then have "k \<in> {RRNA_INDEX_PREFIX, ORF_INDEX_PREFIX}" by simp
    from upgrade_index [OF assms this] show "\<exists>p. c' k = Some (YStr p) \<and> sep \<notin> set p"
      using after_last_sep_no_sep by auto
  qed
  then have 3: "index_prefix_pass [RRNA_INDEX_PREFIX, ORF_INDEX_PREFIX] c' = Inr c'"
    by (rule index_prefix_pass_id)
  have "\<forall>k\<in>set UNUSED. c' k = None"
    by (rule ballI) (rule upgrade_unused [OF assms])
  then have 4: "remove_unused UNUSED c' = c'" by (rule remove_unused_id)
  show ?thesis unfolding upgrade_config_unfold by (simp only: 1 2 3 4 sum.case)
qed


lemma old_new_differ:
  assumes "fst ` set rs \<inter> snd ` set rs = {}" and "a \<in> fst ` set rs" and "(k, n) \<in> set rs"
  shows "a \<noteq> n"
proof -
  have "n \<in> snd ` set rs" using assms(3) by force
  then show ?thesis using assms(1,2) by blast
qed

lemma rename_pass_keeps:
  assumes "c new = Some v" and "new \<notin> fst ` set rs"
    and "\<forall>k. (k, new) \<in> set rs \<longrightarrow> c k = None"
    and "fst ` set rs \<inter> snd ` set rs = {}"
  shows "rename_pass rs c new = Some v"
  using assms
proof (induction rs arbitrary: c)
  case Nil
  then show ?case by simp
next
  case (Cons r rs)
  obtain k n where r: "r = (k, n)" by (cases r)
  let ?c = "case c k of None \<Rightarrow> c | Some w \<Rightarrow> (c(k := None))(n \<mapsto> w)"
  have kn: "new \<noteq> k" using Cons.prems(2) r by auto
  have 1: "?c new = Some v"
  proof (cases "c k")
    case None
    then show ?thesis using Cons.prems(1) by simp
  next
    case (Some w)
    then have "n \<noteq> new" using Cons.prems(3) r by auto
    then show ?thesis using Some Cons.prems(1) kn by simp
  qed
  have 2: "new \<notin> fst ` set rs" using Cons.prems(2) by auto
  have 3: "\<forall>j. (j, new) \<in> set rs \<longrightarrow> ?c j = None"
  proof (intro allI impI)
    fix j assume j: "(j, new) \<in> set rs"
    then have cj: "c j = None" using Cons.prems(3) by simp
    have "j \<in> fst ` set (r # rs)" using j by force
    moreover have "(k, n) \<in> set (r # rs)" using r by simp
    ultimately have "j \<noteq> n" by (rule old_new_differ [OF Cons.prems(4)])
    then show "?c j = None" using cj by (auto split: option.splits)
  qed
  have 4: "fst ` set rs \<inter> snd ` set rs = {}" using Cons.prems(4) by auto
  show ?case using Cons.IH [OF 1 2 3 4] r by simp
qed

lemma later_same_target_subset: "set (later_same_target rs old) \<subseteq> fst ` set rs"
  by (induction rs) (auto split: if_splits)

lemma later_same_target_mem:
  assumes "(k, n) \<in> set rs"
  shows "k \<in> set (later_same_target ((old, n) # rs) old)"
proof -
  have "(k, n) \<in> {r \<in> set rs. snd r = n}" using assms by simp
  then have "fst (k, n) \<in> fst ` {r \<in> set rs. snd r = n}" by (rule imageI)
  then show ?thesis by simp
qed

lemma rename_pass_moves:
  assumes "(old, new) \<in> set rs" and "c old = Some v"
    and "\<forall>k\<in>set (later_same_target rs old). c k = None"
    and "fst ` set rs \<inter> snd ` set rs = {}"
    and "distinct (map fst rs)"
  shows "rename_pass rs c new = Some v"
  using assms
proof (induction rs arbitrary: c)
  case Nil
  then show ?case by simp
next
  case (Cons r rs)
  obtain k n where r: "r = (k, n)" by (cases r)
  let ?c = "case c k of None \<Rightarrow> c | Some w \<Rightarrow> (c(k := None))(n \<mapsto> w)"
  have disj: "fst ` set rs \<inter> snd ` set rs = {}" using Cons.prems(4) by auto
  have dist: "distinct (map fst rs)" using Cons.prems(5) by simp
  show ?case
  proof (cases "k = old")
    case True
    have "old \<notin> fst ` set rs" using Cons.prems(5) r True by simp
    then have "(old, new) \<notin> set rs" by force
    then have n: "n = new" using Cons.prems(1) r True by simp
    have c: "?c = (c(old := None))(new \<mapsto> v)" using True n Cons.prems(2) by simp
    have 1: "?c new = Some v" unfolding c by simp
    have 2: "new \<notin> fst ` set rs" using Cons.prems(4) r n by auto
    have 3: "\<forall>j. (j, new) \<in> set rs \<longrightarrow> ?c j = None"
    proof (intro allI impI)
      fix j assume j: "(j, new) \<in> set rs"
      then have "j \<in> set (later_same_target (r # rs) old)"
        unfolding r True n by (rule later_same_target_mem)
      then have "c j = None" using Cons.prems(3) by blast
      moreover have "j \<noteq> new" using j 2 by force
      ultimately show "?c j = None" unfolding c by simp
    qed
    show ?thesis using rename_pass_keeps [OF 1 2 3 disj] r by simp
  next
    case False
    have mem: "(old, new) \<in> set rs" using Cons.prems(1) r False by simp
    have "old \<in> fst ` set (r # rs)" using mem by force
    moreover have "(k, n) \<in> set (r # rs)" using r by simp
    ultimately have oldn: "old \<noteq> n" by (rule old_new_differ [OF Cons.prems(4)])
    have 1: "?c old = Some v" using Cons.prems(2) False oldn by (auto split: option.splits)
    have 2: "\<forall>j\<in>set (later_same_target rs old). ?c j = None"
    proof
      fix j assume j: "j \<in> set (later_same_target rs old)"
      then have cj: "c j = None" using Cons.prems(3) r False by simp
      have "j \<in> fst ` set rs" using j later_same_target_subset by blast
      then have "j \<in> fst ` set (r # rs)" by simp
      moreover have "(k, n) \<in> set (r # rs)" using r by simp
      ultimately have "j \<noteq> n" by (rule old_new_differ [OF Cons.prems(4)])
      then show "?c j = None" using cj by (auto split: option.splits)
    qed
    show ?thesis using Cons.IH [OF mem 1 2 disj dist] r by simp
  qed
qed


lemma later_same_target_RENAMES:
  "(old, new) \<in> set RENAMES \<Longrightarrow>
     later_same_target RENAMES old = (if old = ''StopInCDS'' then [''stop_in_cds''] else [])"
  by (auto simp: table_defs)

lemma vignette_legacy_rrna:
  "rename_pass RENAMES vignette_legacy RRNA_INDEX_PREFIX = Some (YStr ''vignette/index/yeast_rRNA'')"
  by (simp add: table_defs vignette_legacy_def)


lemma vignette_legacy_orf:
  "rename_pass RENAMES vignette_legacy ORF_INDEX_PREFIX = Some (YStr ''vignette/index/YAL_CDS_w_250'')"
  by (simp add: table_defs vignette_legacy_def)

lemma vignette_legacy_upgrades: "\<exists>c'. upgrade_config vignette_legacy = Inr c'"
  using vignette_legacy_rrna vignette_legacy_orf by (rule upgrade_succeeds)

lemma index_prefix_pass_error:
  "index_prefix_pass ks c = Inl e \<Longrightarrow> e = TypeError \<or> (\<exists>k. e = KeyError k)"
  by (induction ks arbitrary: c) (auto split: option.splits yaml.splits)

lemma upgrade_config_error:
  assumes "upgrade_config c = Inl e"
  shows "e = TypeError \<or> (\<exists>k. e = KeyError k)"
proof -
  from assms have "index_prefix_pass [RRNA_INDEX_PREFIX, ORF_INDEX_PREFIX]
      (default_pass (rename_pass RENAMES c)) = Inl e"
    unfolding upgrade_config_unfold by (simp split: sum.splits)
  then show ?thesis by (rule index_prefix_pass_error)
qed

section \<open>Claims about upgrade_config\<close>

text \<open>
  C1. Applying \<^verbatim>\<open>upgrade_config\<close> to a configuration it has already upgraded returns
  that configuration unchanged, so two applications in succession give what one gives (an
  exception of the first application is what both give). The same holds of the
  index-prefix pass alone, and a file name without a separator is left as it is.
\<close>

theorem upgrade_config_idempotent:
  "(case upgrade_config config of Inl e \<Rightarrow> Inl e | Inr config' \<Rightarrow> upgrade_config config')
     = upgrade_config config
   \<and> (case index_prefix_pass ks config of Inl e \<Rightarrow> Inl e
        | Inr config' \<Rightarrow> index_prefix_pass ks config') = index_prefix_pass ks config
   \<and> (sep \<notin> set name \<longrightarrow> snd (path_split name) = name)"
proof (intro conjI impI)
  show "(case upgrade_config config of Inl e \<Rightarrow> Inl e | Inr config' \<Rightarrow> upgrade_config config')
     = upgrade_config config"
  proof (cases "upgrade_config config")
    case (Inl e)
    then show ?thesis by simp
  next
    case (Inr config')
    then show ?thesis by (simp add: upgrade_config_fixpoint)
  qed
  show "(case index_prefix_pass ks config of Inl e \<Rightarrow> Inl e
        | Inr config' \<Rightarrow> index_prefix_pass ks config') = index_prefix_pass ks config"
  proof (cases "index_prefix_pass ks config")
    case (Inl e)
    then show ?thesis by simp
  next
    case (Inr config')
    then show ?thesis by (simp add: index_prefix_pass_idem)
  qed
  show "snd (path_split name) = name" if "sep \<notin> set name"
    using that by (simp add: snd_path_split after_last_sep_bare)
qed

theorem upgrade_config_idempotent_witness:
  "\<not> isl (upgrade_config vignette_legacy)
   \<and> (case upgrade_config vignette_legacy of Inl e \<Rightarrow> Inl e
        | Inr config' \<Rightarrow> upgrade_config config') = upgrade_config vignette_legacy
   \<and> sep \<notin> set ''yeast_rRNA''
   \<and> snd (path_split ''yeast_rRNA'') = ''yeast_rRNA''"
proof -
  have "sep \<notin> set ''yeast_rRNA''" by (simp add: sep_def)
  moreover have "\<not> isl (upgrade_config vignette_legacy)"
    using vignette_legacy_upgrades by auto
  ultimately show ?thesis
    using upgrade_config_idempotent [of vignette_legacy "[]" "''yeast_rRNA''"] by blast
qed

text \<open>
  C5. Once \<^verbatim>\<open>upgrade_config\<close> has returned, no key of \<^verbatim>\<open>UNUSED\<close> (aligner, isTestRun,
  is_test_run, cmd_file, dir_logs) is in the configuration, whether the input held it or not.
\<close>

theorem unused_keys_removed:
  assumes "upgrade_config config = Inr config'" and "key \<in> set UNUSED"
  shows "config' key = None"
  using assms by (rule upgrade_unused)

theorem unused_keys_removed_witness:
  "''aligner'' \<in> set UNUSED \<and> vignette_legacy ''aligner'' = Some (YStr ''hisat2'')
   \<and> value_after_upgrade vignette_legacy ''aligner'' = Inr None"
proof -
  obtain c' where c': "upgrade_config vignette_legacy = Inr c'"
    using vignette_legacy_upgrades by blast
  have mem: "''aligner'' \<in> set UNUSED" by (simp add: UNUSED_def)
  have "c' ''aligner'' = None" using c' mem by (rule unused_keys_removed)
  then have "value_after_upgrade vignette_legacy ''aligner'' = Inr None"
    using c' by (simp add: value_after_upgrade_def)
  moreover have "vignette_legacy ''aligner'' = Some (YStr ''hisat2'')"
    by (simp add: vignette_legacy_def)
  ultimately show ?thesis using mem by simp
qed


lemma default_table_lookup:
  assumes "(key, v) \<in> set (UPDATES @ job_config)"
  shows "map_of (UPDATES @ job_config) key = Some v"
  using defaults_distinct assms by (rule map_of_is_SomeI)

lemma default_key_kept:
  assumes "upgrade_config c = Inr c'" and "(key, v) \<in> set (UPDATES @ job_config)"
  shows "c' key = default_pass (rename_pass RENAMES c) key"
proof -
  have k: "key \<in> fst ` set (UPDATES @ job_config)" using assms(2) by force
  have "key \<notin> set UNUSED" using k default_not_unused by blast
  moreover have "key \<notin> {RRNA_INDEX_PREFIX, ORF_INDEX_PREFIX}" using k default_not_index by blast
  ultimately show ?thesis using assms(1) by (intro upgrade_other) simp_all
qed

text \<open>
  C4. For every entry \<open>(key, v)\<close> of the defaults tables (\<^verbatim>\<open>UPDATES\<close>, and the job
  defaults without \<^verbatim>\<open>nextflow_resume\<close>): when the key is absent after the rename pass, the
  default-injection pass binds it to \<open>v\<close>; when it is present, also through a rename, the
  pass leaves its value; and the later passes do not touch it, so that is its value once
  \<^verbatim>\<open>upgrade_config\<close> has returned.
\<close>

theorem defaults_injected:
  assumes "(key, v) \<in> set (UPDATES @ job_config)"
  shows "(rename_pass RENAMES config key = None \<longrightarrow>
            default_pass (rename_pass RENAMES config) key = Some v)
       \<and> (rename_pass RENAMES config key = Some w \<longrightarrow>
            default_pass (rename_pass RENAMES config) key = Some w)
       \<and> (upgrade_config config = Inr config' \<longrightarrow>
            config' key = default_pass (rename_pass RENAMES config) key)"
proof (intro conjI impI)
  assume "rename_pass RENAMES config key = None"
  then show "default_pass (rename_pass RENAMES config) key = Some v"
    using default_table_lookup [OF assms] by (simp add: default_pass_lookup del: map_of_append)
next
  assume "rename_pass RENAMES config key = Some w"
  then show "default_pass (rename_pass RENAMES config) key = Some w"
    by (simp add: default_pass_lookup)
next
  assume "upgrade_config config = Inr config'"
  then show "config' key = default_pass (rename_pass RENAMES config) key"
    using assms by (rule default_key_kept)
qed

theorem defaults_injected_witness:
  "(''feature'', YStr ''CDS'') \<in> set (UPDATES @ job_config)
   \<and> rename_pass RENAMES vignette_legacy ''feature'' = None
   \<and> value_after_upgrade vignette_legacy ''feature'' = Inr (Some (YStr ''CDS''))
   \<and> (''stop_in_feature'', YBool False) \<in> set (UPDATES @ job_config)
   \<and> rename_pass RENAMES vignette_legacy ''stop_in_feature'' = Some (YBool True)
   \<and> value_after_upgrade vignette_legacy ''stop_in_feature'' = Inr (Some (YBool True))"
proof -
  obtain c' where c': "upgrade_config vignette_legacy = Inr c'"
    using vignette_legacy_upgrades by blast
  have f: "(''feature'', YStr ''CDS'') \<in> set (UPDATES @ job_config)"
    by (simp add: UPDATES_def)
  have s: "(''stop_in_feature'', YBool False) \<in> set (UPDATES @ job_config)"
    by (simp add: UPDATES_def STOP_IN_FEATURE_def)
  have rf: "rename_pass RENAMES vignette_legacy ''feature'' = None"
    by (simp add: table_defs vignette_legacy_def)
  have rs: "rename_pass RENAMES vignette_legacy ''stop_in_feature'' = Some (YBool True)"
    by (simp add: table_defs vignette_legacy_def)
  have "c' ''feature'' = Some (YStr ''CDS'')"
    using defaults_injected [OF f, of vignette_legacy YNull c'] rf c' by simp
  moreover have "c' ''stop_in_feature'' = Some (YBool True)"
    using defaults_injected [OF s, of vignette_legacy "YBool True" c'] rs c' by simp
  ultimately show ?thesis using f s rf rs c' by (simp add: value_after_upgrade_def)
qed

text \<open>
  C2, as the claim states it, fails: the value that \<open>orf_index\<close> held is not the value
  that \<open>orf_index_prefix\<close> holds after the upgrade, and of two legacy spellings of
  \<open>stop_in_feature\<close> only the one listed later in \<^verbatim>\<open>RENAMES\<close> keeps its value.
\<close>

theorem renamed_value_counterexample:
  "(''orf_index'', ''orf_index_prefix'') \<in> set RENAMES
   \<and> vignette_legacy ''orf_index'' = Some (YStr ''vignette/index/YAL_CDS_w_250'')
   \<and> value_after_upgrade vignette_legacy ''orf_index_prefix'' = Inr (Some (YStr ''YAL_CDS_w_250''))
   \<and> (''StopInCDS'', ''stop_in_feature'') \<in> set RENAMES
   \<and> both_stop_keys ''StopInCDS'' = Some (YBool True)
   \<and> value_after_upgrade both_stop_keys ''stop_in_feature'' = Inr (Some (YBool False))"
proof -
  obtain c' where c': "upgrade_config vignette_legacy = Inr c'"
    using vignette_legacy_upgrades by blast
  have "ORF_INDEX_PREFIX \<in> {RRNA_INDEX_PREFIX, ORF_INDEX_PREFIX}" by simp
  from upgrade_index [OF c' this] vignette_legacy_orf
  have "c' ORF_INDEX_PREFIX = Some (YStr (after_last_sep ''vignette/index/YAL_CDS_w_250''))"
    by simp
  then have 1: "value_after_upgrade vignette_legacy ''orf_index_prefix''
      = Inr (Some (YStr ''YAL_CDS_w_250''))"
    using c' by (simp add: value_after_upgrade_def ORF_INDEX_PREFIX_def after_last_sep_def sep_def)
  have "rename_pass RENAMES both_stop_keys RRNA_INDEX_PREFIX = Some (YStr ''yeast_rRNA'')"
    by (simp add: table_defs both_stop_keys_def)
  moreover have "rename_pass RENAMES both_stop_keys ORF_INDEX_PREFIX = Some (YStr ''YAL_CDS_w_250'')"
    by (simp add: table_defs both_stop_keys_def)
  ultimately obtain b' where b': "upgrade_config both_stop_keys = Inr b'"
    using upgrade_succeeds by blast
  have "''stop_in_feature'' \<notin> set UNUSED" by (simp add: UNUSED_def)
  then have "b' ''stop_in_feature'' = default_pass (rename_pass RENAMES both_stop_keys) ''stop_in_feature''"
    using b' by (intro upgrade_other) (simp_all add: table_defs)
  moreover have "rename_pass RENAMES both_stop_keys ''stop_in_feature'' = Some (YBool False)"
    by (simp add: table_defs both_stop_keys_def)
  ultimately have 2: "value_after_upgrade both_stop_keys ''stop_in_feature'' = Inr (Some (YBool False))"
    using b' by (simp add: value_after_upgrade_def default_pass_lookup)
  have 3: "(''orf_index'', ''orf_index_prefix'') \<in> set RENAMES"
    "(''StopInCDS'', ''stop_in_feature'') \<in> set RENAMES"
    by (simp_all add: table_defs)
  have 4: "vignette_legacy ''orf_index'' = Some (YStr ''vignette/index/YAL_CDS_w_250'')"
    "both_stop_keys ''StopInCDS'' = Some (YBool True)"
    by (simp_all add: vignette_legacy_def both_stop_keys_def)
  show ?thesis using 1 2 3 4 by simp
qed


lemma stop_in_cds_target:
  "(old, new) \<in> set RENAMES \<Longrightarrow> new \<in> {RRNA_INDEX_PREFIX, ORF_INDEX_PREFIX} \<Longrightarrow>
     old \<noteq> ''StopInCDS''"
  by (auto simp: table_defs)

lemma renamed_value:
  assumes "(old, new) \<in> set RENAMES" and "c old = Some v"
    and "old = ''StopInCDS'' \<longrightarrow> c ''stop_in_cds'' = None"
  shows "rename_pass RENAMES c new = Some v"
proof -
  have "\<forall>k\<in>set (later_same_target RENAMES old). c k = None"
    using assms(3) by (simp add: later_same_target_RENAMES [OF assms(1)])
  with assms(1,2) show ?thesis
    using renames_old_new_disjoint renames_old_distinct by (rule rename_pass_moves)
qed

text \<open>
  C2, amended. For an entry \<open>(old_key, new_key)\<close> of \<^verbatim>\<open>RENAMES\<close> whose legacy key the
  input holds, once \<^verbatim>\<open>upgrade_config\<close> has returned: the legacy key is absent; the current
  key holds the value the legacy key had, unless the current key is an index prefix, and
  provided that the legacy key is not \<open>StopInCDS\<close> in an input that also holds
  \<open>stop_in_cds\<close> (listed later, with the same current key); an index prefix holds what
  follows the last separator of the legacy value.
\<close>

theorem renamed_keys_moved:
  assumes "(old_key, new_key) \<in> set RENAMES" and "config old_key = Some v"
    and "upgrade_config config = Inr config'"
  shows "config' old_key = None
       \<and> (new_key \<notin> {RRNA_INDEX_PREFIX, ORF_INDEX_PREFIX}
            \<and> (old_key = ''StopInCDS'' \<longrightarrow> config ''stop_in_cds'' = None)
          \<longrightarrow> config' new_key = Some v)
       \<and> (new_key \<in> {RRNA_INDEX_PREFIX, ORF_INDEX_PREFIX}
          \<longrightarrow> (\<exists>p. v = YStr p \<and> config' new_key = Some (YStr (snd (path_split p)))))"
proof (intro conjI impI)
  have "old_key \<in> fst ` set RENAMES" using assms(1) by force
  with assms(3) show "config' old_key = None" by (rule upgrade_legacy_absent)
next
  assume h: "new_key \<notin> {RRNA_INDEX_PREFIX, ORF_INDEX_PREFIX}
     \<and> (old_key = ''StopInCDS'' \<longrightarrow> config ''stop_in_cds'' = None)"
  then have "old_key = ''StopInCDS'' \<longrightarrow> config ''stop_in_cds'' = None" by simp
  with assms(1,2) have r: "rename_pass RENAMES config new_key = Some v"
    by (rule renamed_value)
  have "new_key \<in> snd ` set RENAMES" using assms(1) by force
  then have "new_key \<notin> set UNUSED" using current_not_unused by blast
  then have "config' new_key = default_pass (rename_pass RENAMES config) new_key"
    using assms(3) h by (intro upgrade_other) simp_all
  then show "config' new_key = Some v" using r by (simp add: default_pass_lookup)
next
  assume h: "new_key \<in> {RRNA_INDEX_PREFIX, ORF_INDEX_PREFIX}"
  have "old_key \<noteq> ''StopInCDS''" using assms(1) h by (rule stop_in_cds_target)
  then have "old_key = ''StopInCDS'' \<longrightarrow> config ''stop_in_cds'' = None" by simp
  with assms(1,2) have r: "rename_pass RENAMES config new_key = Some v"
    by (rule renamed_value)
  from upgrade_index [OF assms(3) h] r
  show "\<exists>p. v = YStr p \<and> config' new_key = Some (YStr (snd (path_split p)))"
    by (auto simp: snd_path_split)
qed

theorem renamed_keys_moved_witness:
  "(''Buffer'', ''buffer'') \<in> set RENAMES
   \<and> vignette_legacy ''Buffer'' = Some (YInt 250)
   \<and> value_after_upgrade vignette_legacy ''Buffer'' = Inr None
   \<and> value_after_upgrade vignette_legacy ''buffer'' = Inr (Some (YInt 250))
   \<and> (''rRNA_index'', RRNA_INDEX_PREFIX) \<in> set RENAMES
   \<and> vignette_legacy ''rRNA_index'' = Some (YStr ''vignette/index/yeast_rRNA'')
   \<and> value_after_upgrade vignette_legacy RRNA_INDEX_PREFIX
       = Inr (Some (YStr (snd (path_split ''vignette/index/yeast_rRNA''))))"
proof -
  obtain c' where c': "upgrade_config vignette_legacy = Inr c'"
    using vignette_legacy_upgrades by blast
  have b: "(''Buffer'', ''buffer'') \<in> set RENAMES" by (simp add: RENAMES_def)
  have vb: "vignette_legacy ''Buffer'' = Some (YInt 250)" by (simp add: vignette_legacy_def)
  have i: "(''rRNA_index'', RRNA_INDEX_PREFIX) \<in> set RENAMES" by (simp add: RENAMES_def)
  have vi: "vignette_legacy ''rRNA_index'' = Some (YStr ''vignette/index/yeast_rRNA'')"
    by (simp add: vignette_legacy_def)
  have "''buffer'' \<notin> {RRNA_INDEX_PREFIX, ORF_INDEX_PREFIX}"
    by (simp add: RRNA_INDEX_PREFIX_def ORF_INDEX_PREFIX_def)
  then have "c' ''Buffer'' = None \<and> c' ''buffer'' = Some (YInt 250)"
    using renamed_keys_moved [OF b vb c'] by simp
  moreover have "c' RRNA_INDEX_PREFIX = Some (YStr (snd (path_split ''vignette/index/yeast_rRNA'')))"
    using renamed_keys_moved [OF i vi c'] by simp
  ultimately show ?thesis using b vb i vi c' by (simp add: value_after_upgrade_def)
qed


text \<open>
  C6, as the claim states it, fails: a key that no table names stays in the upgraded
  configuration, and a value of another type than the default's is kept as it is.
\<close>

theorem unknown_key_persists_counterexample:
  "''no_such_parameter'' \<notin> fst ` set RENAMES \<union> snd ` set RENAMES
       \<union> fst ` set (UPDATES @ job_config) \<union> set UNUSED
   \<and> value_after_upgrade vignette_legacy ''no_such_parameter'' = Inr (Some (YInt 1))
   \<and> (''count_threshold'', YInt 64) \<in> set UPDATES
   \<and> value_after_upgrade vignette_legacy ''count_threshold'' = Inr (Some (YStr ''many''))"
proof -
  obtain c' where c': "upgrade_config vignette_legacy = Inr c'"
    using vignette_legacy_upgrades by blast
  have 1: "''no_such_parameter'' \<notin> fst ` set RENAMES \<union> snd ` set RENAMES
       \<union> fst ` set (UPDATES @ job_config) \<union> set UNUSED"
    by (simp add: table_defs)
  have "''no_such_parameter'' \<notin> set UNUSED" by (simp add: UNUSED_def)
  then have "c' ''no_such_parameter''
      = default_pass (rename_pass RENAMES vignette_legacy) ''no_such_parameter''"
    using c' by (intro upgrade_other) (simp_all add: table_defs)
  moreover have "rename_pass RENAMES vignette_legacy ''no_such_parameter'' = Some (YInt 1)"
    by (simp add: table_defs vignette_legacy_def)
  ultimately have 2: "value_after_upgrade vignette_legacy ''no_such_parameter'' = Inr (Some (YInt 1))"
    using c' by (simp add: value_after_upgrade_def default_pass_lookup)
  have "''count_threshold'' \<notin> set UNUSED" by (simp add: UNUSED_def)
  then have "c' ''count_threshold''
      = default_pass (rename_pass RENAMES vignette_legacy) ''count_threshold''"
    using c' by (intro upgrade_other) (simp_all add: table_defs)
  moreover have "rename_pass RENAMES vignette_legacy ''count_threshold'' = Some (YStr ''many'')"
    by (simp add: table_defs vignette_legacy_def)
  ultimately have 3: "value_after_upgrade vignette_legacy ''count_threshold''
      = Inr (Some (YStr ''many''))"
    using c' by (simp add: value_after_upgrade_def default_pass_lookup)
  have 4: "(''count_threshold'', YInt 64) \<in> set UPDATES" by (simp add: UPDATES_def)
  show ?thesis using 1 2 3 4 by simp
qed

lemma untouched_key:
  assumes "upgrade_config c = Inr c'"
    and "key \<notin> fst ` set RENAMES \<union> snd ` set RENAMES
           \<union> fst ` set (UPDATES @ job_config) \<union> set UNUSED"
  shows "c' key = c key"
proof -
  have "key \<notin> {RRNA_INDEX_PREFIX, ORF_INDEX_PREFIX}" using assms(2) index_is_current by blast
  moreover have "key \<notin> set UNUSED" using assms(2) by simp
  ultimately have "c' key = default_pass (rename_pass RENAMES c) key"
    using assms(1) by (intro upgrade_other) simp_all
  moreover have "rename_pass RENAMES c key = c key"
    using assms(2) by (intro rename_pass_other) simp_all
  moreover have "key \<notin> fst ` set (UPDATES @ job_config)" using assms(2) by simp
  then have "map_of (UPDATES @ job_config) key = None" by (rule map_of_eq_None_iff [THEN iffD2])
  ultimately show ?thesis by (simp add: default_pass_lookup split: option.splits)
qed

text \<open>
  C6, amended. Once \<^verbatim>\<open>upgrade_config\<close> has returned: every key of the defaults tables is
  present; both index prefixes are strings without a separator; no legacy key of
  \<^verbatim>\<open>RENAMES\<close> and no key of \<^verbatim>\<open>UNUSED\<close> is present; and a key that none of the tables
  names is as the input had it, present or absent (values are not checked against a type).
\<close>

theorem upgraded_config_shape:
  assumes "upgrade_config config = Inr config'"
  shows "(\<forall>key\<in>fst ` set (UPDATES @ job_config). config' key \<noteq> None)
       \<and> (\<forall>key\<in>{RRNA_INDEX_PREFIX, ORF_INDEX_PREFIX}.
            \<exists>p. config' key = Some (YStr p) \<and> sep \<notin> set p)
       \<and> (\<forall>key\<in>fst ` set RENAMES \<union> set UNUSED. config' key = None)
       \<and> (\<forall>key. key \<notin> fst ` set RENAMES \<union> snd ` set RENAMES
                     \<union> fst ` set (UPDATES @ job_config) \<union> set UNUSED
               \<longrightarrow> config' key = config key)"
proof (intro conjI ballI allI impI)
  fix key assume "key \<in> fst ` set (UPDATES @ job_config)"
  with assms show "config' key \<noteq> None" by (rule upgrade_default_present)
next
  fix key assume "key \<in> {RRNA_INDEX_PREFIX, ORF_INDEX_PREFIX}"
  from upgrade_index [OF assms this]
  show "\<exists>p. config' key = Some (YStr p) \<and> sep \<notin> set p"
    using after_last_sep_no_sep by blast
next
  fix key assume "key \<in> fst ` set RENAMES \<union> set UNUSED"
  then consider "key \<in> fst ` set RENAMES" | "key \<in> set UNUSED" by blast
  then show "config' key = None"
  proof cases
    case 1
    with assms show ?thesis by (rule upgrade_legacy_absent)
  next
    case 2
    with assms show ?thesis by (rule upgrade_unused)
  qed
next
  fix key assume "key \<notin> fst ` set RENAMES \<union> snd ` set RENAMES
                     \<union> fst ` set (UPDATES @ job_config) \<union> set UNUSED"
  with assms show "config' key = config key" by (rule untouched_key)
qed

theorem upgraded_config_shape_witness:
  "value_after_upgrade vignette_legacy ''job_memory'' \<noteq> Inr None
   \<and> value_after_upgrade vignette_legacy ''orf_index'' = Inr None
   \<and> value_after_upgrade vignette_legacy ''dir_out'' = Inr (vignette_legacy ''dir_out'')
   \<and> (\<exists>p. value_after_upgrade vignette_legacy ORF_INDEX_PREFIX = Inr (Some (YStr p))
          \<and> sep \<notin> set p)"
proof -
  obtain c' where c': "upgrade_config vignette_legacy = Inr c'"
    using vignette_legacy_upgrades by blast
  note shape = upgraded_config_shape [OF c']
  have "''job_memory'' \<in> fst ` set (UPDATES @ job_config)" by (simp add: table_defs)
  then have 1: "c' ''job_memory'' \<noteq> None" using shape by blast
  have "''orf_index'' \<in> fst ` set RENAMES \<union> set UNUSED" by (simp add: table_defs)
  then have 2: "c' ''orf_index'' = None" using shape by blast
  have "''dir_out'' \<notin> fst ` set RENAMES \<union> snd ` set RENAMES
       \<union> fst ` set (UPDATES @ job_config) \<union> set UNUSED"
    by (simp add: table_defs)
  then have 3: "c' ''dir_out'' = vignette_legacy ''dir_out''" using shape by blast
  have 4: "\<exists>p. c' ORF_INDEX_PREFIX = Some (YStr p) \<and> sep \<notin> set p" using shape by blast
  show ?thesis using 1 2 3 4 c' by (simp add: value_after_upgrade_def)
qed


text \<open>
  C3, as the claim states it, fails: \<^verbatim>\<open>upgrade_config\<close> raises \<^verbatim>\<open>KeyError\<close> on the empty
  mapping, which holds neither a legacy index key nor an index prefix, and \<^verbatim>\<open>TypeError\<close>
  on a mapping whose rRNA index prefix is a number.
\<close>

theorem upgrade_config_raises_counterexample:
  "upgrade_config empty_config = Inl (KeyError ''rrna_index_prefix'')
   \<and> upgrade_config numeric_index_config = Inl TypeError"
proof -
  have "rename_pass RENAMES empty_config RRNA_INDEX_PREFIX = None"
    by (simp add: table_defs empty_config_def)
  then have "default_pass (rename_pass RENAMES empty_config) RRNA_INDEX_PREFIX = None"
    by (simp add: default_pass_index)
  then have 1: "upgrade_config empty_config = Inl (KeyError ''rrna_index_prefix'')"
    unfolding upgrade_config_unfold by (simp add: RRNA_INDEX_PREFIX_def)
  have "rename_pass RENAMES numeric_index_config RRNA_INDEX_PREFIX = Some (YInt 5)"
    by (simp add: table_defs numeric_index_config_def)
  then have "default_pass (rename_pass RENAMES numeric_index_config) RRNA_INDEX_PREFIX
      = Some (YInt 5)"
    by (simp add: default_pass_index)
  then have 2: "upgrade_config numeric_index_config = Inl TypeError"
    unfolding upgrade_config_unfold by simp
  show ?thesis using 1 2 by simp
qed

lemma upgrade_config_no_assertion: "upgrade_config c \<noteq> Inl AssertionError"
  using upgrade_config_error [of c AssertionError] by auto

text \<open>
  C3, amended. \<^verbatim>\<open>upgrade_config_file\<close> raises the assertion exactly when the input path is
  not an existing regular file, whatever the file system holds otherwise, so before
  anything is read or written; and \<^verbatim>\<open>upgrade_config\<close> raises no error on a mapping in which,
  after the rename pass, both index prefixes are strings.
\<close>

theorem upgrade_failure_semantics:
  "(upgrade_config_file fs input_file output_file = Inl AssertionError
      \<longleftrightarrow> \<not> (path_exists fs input_file \<and> path_isfile fs input_file))
   \<and> (rename_pass RENAMES config RRNA_INDEX_PREFIX = Some (YStr p)
        \<and> rename_pass RENAMES config ORF_INDEX_PREFIX = Some (YStr q)
      \<longrightarrow> (\<exists>config'. upgrade_config config = Inr config'))"
proof (intro conjI impI)
  show "upgrade_config_file fs input_file output_file = Inl AssertionError
      \<longleftrightarrow> \<not> (path_exists fs input_file \<and> path_isfile fs input_file)"
    using upgrade_config_no_assertion
    by (auto simp: upgrade_config_file_def split: option.splits sum.splits)
next
  assume "rename_pass RENAMES config RRNA_INDEX_PREFIX = Some (YStr p)
        \<and> rename_pass RENAMES config ORF_INDEX_PREFIX = Some (YStr q)"
  then show "\<exists>config'. upgrade_config config = Inr config'"
    using upgrade_succeeds by blast
qed

theorem upgrade_failure_semantics_witness:
  "\<not> path_exists vignette_fs ''missing.yaml''
   \<and> upgrade_config_file vignette_fs ''missing.yaml'' None = Inl AssertionError
   \<and> path_exists vignette_fs ''vignette/vignette_config.yaml''
   \<and> path_isfile vignette_fs ''vignette/vignette_config.yaml''
   \<and> upgrade_config_file vignette_fs ''vignette/vignette_config.yaml'' None \<noteq> Inl AssertionError
   \<and> rename_pass RENAMES vignette_legacy RRNA_INDEX_PREFIX = Some (YStr ''vignette/index/yeast_rRNA'')
   \<and> rename_pass RENAMES vignette_legacy ORF_INDEX_PREFIX = Some (YStr ''vignette/index/YAL_CDS_w_250'')
   \<and> \<not> isl (upgrade_config vignette_legacy)"
proof -
  have 1: "\<not> path_exists vignette_fs ''missing.yaml''" by (simp add: vignette_fs_def)
  have 2: "path_exists vignette_fs ''vignette/vignette_config.yaml''"
    "path_isfile vignette_fs ''vignette/vignette_config.yaml''"
    by (simp_all add: vignette_fs_def)
  have 3: "upgrade_config_file vignette_fs ''missing.yaml'' None = Inl AssertionError"
    using upgrade_failure_semantics [of vignette_fs "''missing.yaml''" None] 1 by blast
  have 4: "upgrade_config_file vignette_fs ''vignette/vignette_config.yaml'' None
      \<noteq> Inl AssertionError"
    using upgrade_failure_semantics [of vignette_fs "''vignette/vignette_config.yaml''" None] 2
    by blast
  have "\<exists>c'. upgrade_config vignette_legacy = Inr c'"
    using upgrade_failure_semantics [of _ _ _ vignette_legacy
        "''vignette/index/yeast_rRNA''" "''vignette/index/YAL_CDS_w_250''"]
      vignette_legacy_rrna vignette_legacy_orf by blast
  then have 5: "\<not> isl (upgrade_config vignette_legacy)" by auto
  show ?thesis using 1 2 3 4 5 vignette_legacy_rrna vignette_legacy_orf by simp
qed


section \<open>Lemmas about paths\<close>

lemma split_sep_nonempty: "split_sep p \<noteq> []"
  by (induction p) (auto split: list.splits)

lemma split_sep_append: "split_sep (p @ sep # q) = split_sep p @ split_sep q"
proof (induction p)
  case Nil
  then show ?case by simp
next
  case (Cons c cs)
  obtain w ws where w: "split_sep cs = w # ws"
    using split_sep_nonempty [of cs] by (cases "split_sep cs") auto
  show ?case using Cons w by simp
qed

lemma split_sep_bare: "sep \<notin> set q \<Longrightarrow> split_sep q = [q]"
  by (induction q) auto

lemma split_sep_trailing: "split_sep (p @ replicate n sep) = split_sep p @ replicate n []"
proof (induction n)
  case 0
  then show ?case by simp
next
  case (Suc n)
  have "p @ replicate (Suc n) sep = (p @ replicate n sep) @ sep # []"
    by (simp add: replicate_append_same)
  then have "split_sep (p @ replicate (Suc n) sep) = split_sep (p @ replicate n sep) @ [[]]"
    using split_sep_append [of "p @ replicate n sep" "[]"] by simp
  then show ?case using Suc by (simp add: replicate_append_same)
qed

lemma norm_comps_append:
  "norm_comps r (xs @ ys) acc = norm_comps r ys (norm_comps r xs acc)"
  by (induction xs arbitrary: acc) simp_all

lemma norm_comps_empties: "norm_comps r (replicate n []) acc = acc"
  by (induction n) simp_all

lemma norm_comps_no_empty:
  "[] \<notin> set acc \<Longrightarrow> [] \<notin> set (norm_comps r xs acc)"
proof (induction xs arbitrary: acc)
  case Nil
  then show ?case by simp
next
  case (Cons x xs)
  let ?acc = "if x = [] \<or> x = ''.'' then acc
        else if x \<noteq> ''..'' \<or> (\<not> r \<and> acc = []) \<or> (acc \<noteq> [] \<and> last acc = ''..'')
             then acc @ [x]
        else if acc \<noteq> [] then butlast acc
        else acc"
  have "[] \<notin> set (butlast acc)" using Cons.prems by (auto dest: in_set_butlastD)
  then have "[] \<notin> set ?acc" using Cons.prems by auto
  then have "[] \<notin> set (norm_comps r xs ?acc)" by (rule Cons.IH)
  then show ?case unfolding norm_comps.simps .
qed

lemma norm_comps_no_sep:
  assumes "\<forall>w\<in>set acc. sep \<notin> set w" and "\<forall>w\<in>set xs. sep \<notin> set w"
  shows "\<forall>w\<in>set (norm_comps r xs acc). sep \<notin> set w"
  using assms
proof (induction xs arbitrary: acc)
  case Nil
  then show ?case by simp
next
  case (Cons x xs)
  let ?acc = "if x = [] \<or> x = ''.'' then acc
        else if x \<noteq> ''..'' \<or> (\<not> r \<and> acc = []) \<or> (acc \<noteq> [] \<and> last acc = ''..'')
             then acc @ [x]
        else if acc \<noteq> [] then butlast acc
        else acc"
  have "\<forall>w\<in>set (butlast acc). sep \<notin> set w"
    using Cons.prems(1) by (auto dest: in_set_butlastD)
  moreover have "sep \<notin> set x" using Cons.prems(2) by simp
  ultimately have 1: "\<forall>w\<in>set ?acc. sep \<notin> set w" using Cons.prems(1) by simp
  have 2: "\<forall>w\<in>set xs. sep \<notin> set w" using Cons.prems(2) by simp
  have "\<forall>w\<in>set (norm_comps r xs ?acc). sep \<notin> set w" using 1 2 by (rule Cons.IH)
  then show ?case by (simp only: norm_comps.simps)
qed

lemma split_sep_no_sep: "\<forall>w\<in>set (split_sep p). sep \<notin> set w"
proof (induction p)
  case Nil
  then show ?case by simp
next
  case (Cons c cs)
  obtain w ws where w: "split_sep cs = w # ws"
    using split_sep_nonempty [of cs] by (cases "split_sep cs") auto
  have "sep \<notin> set w" "\<forall>v\<in>set ws. sep \<notin> set v" using Cons w by simp_all
  then show ?case using w by (cases "c = sep") simp_all
qed

lemma join_sep_snoc: "A \<noteq> [] \<Longrightarrow> join_sep (A @ [w]) = join_sep A @ sep # w"
  by (induction A rule: join_sep.induct) simp_all

lemma after_last_sep_append:
  assumes "sep \<notin> set w" and "x = [] \<or> last x = sep"
  shows "after_last_sep (x @ w) = w"
proof -
  have "takeWhile (\<lambda>c. c \<noteq> sep) (rev x) = []"
    using assms(2) by (cases x rule: rev_cases) auto
  moreover have "\<forall>c\<in>set (rev w). c \<noteq> sep" using assms(1) by auto
  moreover have "takeWhile (\<lambda>c. c \<noteq> sep) (rev w @ rev x)
      = rev w @ takeWhile (\<lambda>c. c \<noteq> sep) (rev x)"
    using assms(1) by (intro takeWhile_append2) auto
  ultimately have "takeWhile (\<lambda>c. c \<noteq> sep) (rev w @ rev x) = rev w"
    by (simp only: append_Nil2)
  then show ?thesis by (simp add: after_last_sep_def)
qed

text \<open>The last segment of a normalised path is the last normalised component.\<close>

lemma basename_normpath:
  assumes "p \<noteq> []"
  shows "basename (normpath p) =
     (if norm_comps (take 1 p = [sep]) (split_sep p) [] = []
      then (if take 1 p = [sep] then [] else ''.'')
      else last (norm_comps (take 1 p = [sep]) (split_sep p) []))"
proof -
  define n where "n = initial_slashes p"
  define A where "A = norm_comps (take 1 p = [sep]) (split_sep p) []"
  have n: "(n \<noteq> 0) = (take 1 p = [sep])" by (simp add: n_def initial_slashes_def)
  have nc: "norm_comps (n \<noteq> 0) (split_sep p) [] = A"
    by (simp only: n A_def)
  have np: "normpath p =
      (if replicate n sep @ join_sep A = [] then ''.'' else replicate n sep @ join_sep A)"
    by (simp only: normpath_def Let_def n_def [symmetric] nc assms if_False)
  have "basename (normpath p) = (if A = [] then (if take 1 p = [sep] then [] else ''.'') else last A)"
  proof (cases "A = []")
    case True
    show ?thesis
    proof (cases "n = 0")
      case True
      have "after_last_sep ''.'' = ''.''" by (simp add: after_last_sep_def sep_def)
      moreover have "normpath p = ''.''" using np \<open>A = []\<close> True by simp
      moreover have "take 1 p \<noteq> [sep]" using n True by simp
      ultimately show ?thesis using \<open>A = []\<close> by (simp add: basename_def)
    next
      case False
      then obtain m where m: "n = Suc m" by (cases n) auto
      have r: "replicate n sep = replicate m sep @ [sep]" by (simp add: m replicate_append_same)
      then have "after_last_sep (replicate n sep) = []" by (simp add: after_last_sep_def)
      moreover have "normpath p = replicate n sep" using np \<open>A = []\<close> r by simp
      moreover have "take 1 p = [sep]" using n False by simp
      ultimately show ?thesis using \<open>A = []\<close> by (simp add: basename_def)
    qed
  next
    case False
    then obtain B w where A: "A = B @ [w]" by (cases A rule: rev_cases) auto
    have "[] \<notin> set A" unfolding A_def by (rule norm_comps_no_empty) simp
    then have w: "w \<noteq> []" using A by auto
    have "\<forall>w\<in>set A. sep \<notin> set w"
      unfolding A_def using split_sep_no_sep by (intro norm_comps_no_sep) simp_all
    then have ws: "sep \<notin> set w" using A by simp
    obtain X where X: "join_sep A = X @ w" "X = [] \<or> last X = sep"
    proof (cases "B = []")
      case True
      then have "join_sep A = [] @ w" using A by simp
      then show ?thesis using that by blast
    next
      case False
      then have "join_sep A = (join_sep B @ [sep]) @ w" using A by (simp add: join_sep_snoc)
      then show ?thesis using that by force
    qed
    define Y where "Y = replicate n sep @ X"
    have Y: "Y = [] \<or> last Y = sep"
    proof (cases "X = []")
      case True
      then show ?thesis by (cases n) (simp_all add: Y_def)
    next
      case False
      then show ?thesis using X(2) by (simp add: Y_def)
    qed
    have path: "replicate n sep @ join_sep A = Y @ w" by (simp add: Y_def X(1))
    have "normpath p = Y @ w" using np w path by simp
    moreover have "after_last_sep (Y @ w) = w" using ws Y by (rule after_last_sep_append)
    ultimately have "basename (normpath p) = w" by (simp only: basename_def)
    then show ?thesis using False A by simp
  qed
  then show ?thesis unfolding A_def .
qed

lemma basename_normpath_trailing:
  assumes "p \<noteq> []"
  shows "basename (normpath (p @ replicate n sep)) = basename (normpath p)"
proof -
  have 1: "p @ replicate n sep \<noteq> []" using assms by simp
  have 2: "take 1 (p @ replicate n sep) = take 1 p" using assms by (cases p) simp_all
  have 3: "norm_comps r (split_sep (p @ replicate n sep)) [] = norm_comps r (split_sep p) []" for r
    by (simp add: split_sep_trailing norm_comps_append norm_comps_empties)
  show ?thesis by (simp only: basename_normpath [OF 1] basename_normpath [OF assms] 2 3)
qed

lemma basename_normpath_segment:
  assumes "pre = [] \<or> last pre = sep"
    and "seg \<noteq> []" and "sep \<notin> set seg" and "seg \<noteq> ''.''" and "seg \<noteq> ''..''"
  shows "basename (normpath (pre @ seg)) = seg"
proof -
  have 1: "pre @ seg \<noteq> []" using assms(2) by simp
  have "\<exists>cs. split_sep (pre @ seg) = cs @ [seg]"
  proof (cases pre rule: rev_cases)
    case Nil
    then have "split_sep (pre @ seg) = [] @ [seg]" using assms(3) by (simp add: split_sep_bare)
    then show ?thesis by blast
  next
    case (snoc d x)
    then have "pre @ seg = d @ sep # seg" using assms(1) by simp
    then have "split_sep (pre @ seg) = split_sep d @ [seg]"
      using assms(3) by (simp add: split_sep_append split_sep_bare)
    then show ?thesis by blast
  qed
  then obtain cs where cs: "split_sep (pre @ seg) = cs @ [seg]" by blast
  have "norm_comps r (split_sep (pre @ seg)) [] = norm_comps r cs [] @ [seg]" for r
    using assms(2,4,5) by (simp add: cs norm_comps_append)
  then show ?thesis by (simp add: basename_normpath [OF 1])
qed

lemma path_join_one:
  assumes "take 1 name \<noteq> [sep]"
  shows "path_join root [name] = (if root = [] \<or> last root = sep then root @ name else root @ sep # name)"
  using assms by simp


section \<open>Claims about the path resolver\<close>

text \<open>
  C7. The expected directory is the expected-results root joined with the last segment of
  the actual directory, and trailing separators of the actual directory do not change it:
  for \<open>a/b/vignette/index/\<close> under the root \<open>/x/y\<close> it is \<open>/x/y/index\<close>; a
  non-empty path with separators appended resolves as the path itself does; and a path that
  ends in a segment \<open>seg\<close> (not \<open>.\<close> or \<open>..\<close>), followed by any number of
  separators, resolves to \<open>root/seg\<close>.
\<close>

theorem path_resolver_last_segment:
  "expected_path ''/x/y'' ''a/b/vignette/index/'' [] = ''/x/y/index''
   \<and> (p \<noteq> [] \<longrightarrow>
        expected_path root (p @ replicate n sep) names = expected_path root p names)
   \<and> ((pre = [] \<or> last pre = sep) \<and> seg \<noteq> [] \<and> sep \<notin> set seg
        \<and> seg \<noteq> ''.'' \<and> seg \<noteq> ''..'' \<and> root \<noteq> [] \<and> last root \<noteq> sep
      \<longrightarrow> expected_path root (pre @ seg @ replicate n sep) [] = root @ sep # seg)"
proof (intro conjI impI)
  show "expected_path ''/x/y'' ''a/b/vignette/index/'' [] = ''/x/y/index''"
    by (simp add: expected_path_def basename_def normpath_def initial_slashes_def sep_def
        after_last_sep_def)
next
  assume "p \<noteq> []"
  then show "expected_path root (p @ replicate n sep) names = expected_path root p names"
    by (simp add: expected_path_def basename_normpath_trailing)
next
  assume h: "(pre = [] \<or> last pre = sep) \<and> seg \<noteq> [] \<and> sep \<notin> set seg
        \<and> seg \<noteq> ''.'' \<and> seg \<noteq> ''..'' \<and> root \<noteq> [] \<and> last root \<noteq> sep"
  then have "basename (normpath (pre @ seg)) = seg"
    by (intro basename_normpath_segment) simp_all
  moreover have "pre @ seg \<noteq> []" using h by simp
  then have "basename (normpath ((pre @ seg) @ replicate n sep)) = basename (normpath (pre @ seg))"
    by (rule basename_normpath_trailing)
  ultimately have b: "basename (normpath (pre @ seg @ replicate n sep)) = seg" by simp
  have "take 1 seg \<noteq> [sep]" using h by (cases seg) auto
  then have "path_join root [seg] = root @ sep # seg" using h by simp
  then show "expected_path root (pre @ seg @ replicate n sep) [] = root @ sep # seg"
    by (simp only: expected_path_def b)
qed

theorem path_resolver_last_segment_witness:
  "''vignette/index'' \<noteq> []
   \<and> expected_path ''/x/y'' (''vignette/index'' @ replicate 2 sep) [''sample'', ''sample.bam'']
       = expected_path ''/x/y'' ''vignette/index'' [''sample'', ''sample.bam'']
   \<and> expected_path ''/x/y'' (''a/b/vignette/'' @ ''index'' @ replicate 1 sep) [] = ''/x/y/index''"
proof -
  have "(''a/b/vignette/'' = [] \<or> last ''a/b/vignette/'' = sep) \<and> ''index'' \<noteq> []
      \<and> sep \<notin> set ''index'' \<and> ''index'' \<noteq> ''.'' \<and> ''index'' \<noteq> ''..''
      \<and> ''/x/y'' \<noteq> [] \<and> last ''/x/y'' \<noteq> sep"
    by (simp add: sep_def)
  then have "expected_path ''/x/y'' (''a/b/vignette/'' @ ''index'' @ replicate 1 sep) []
      = ''/x/y'' @ sep # ''index''"
    using path_resolver_last_segment [where root = "''/x/y''" and pre = "''a/b/vignette/''"
        and seg = "''index''" and n = 1]
    by blast
  moreover have "''vignette/index'' \<noteq> []" by simp
  then have "expected_path ''/x/y'' (''vignette/index'' @ replicate 2 sep) [''sample'', ''sample.bam'']
       = expected_path ''/x/y'' ''vignette/index'' [''sample'', ''sample.bam'']"
    using path_resolver_last_segment [where p = "''vignette/index''" and root = "''/x/y''"
        and n = 2 and names = "[''sample'', ''sample.bam'']"]
    by blast
  ultimately show ?thesis by (simp add: sep_def)
qed

text \<open>
  C10. When the value that the index-prefix pass finds under \<open>rrna_index_prefix\<close> or
  \<open>orf_index_prefix\<close> ends in a separator, the upgraded configuration holds the empty
  string there: \<^verbatim>\<open>os.path.split\<close> of \<open>vignette/index/\<close> has the empty tail, where the
  path resolver's \<^verbatim>\<open>basename(normpath(...))\<close> gives \<open>index\<close>.
\<close>

theorem index_prefix_trailing_separator:
  assumes "key \<in> {RRNA_INDEX_PREFIX, ORF_INDEX_PREFIX}"
    and "rename_pass RENAMES config key = Some (YStr (dir @ [sep]))"
    and "upgrade_config config = Inr config'"
  shows "config' key = Some (YStr [])
       \<and> snd (path_split ''vignette/index/'') = []
       \<and> basename (normpath ''vignette/index/'') = ''index''"
proof (intro conjI)
  from upgrade_index [OF assms(3,1)] assms(2)
  show "config' key = Some (YStr [])" by (simp add: after_last_sep_trailing)
  have "''vignette/index/'' = ''vignette/index'' @ [sep]" by (simp add: sep_def)
  then show "snd (path_split ''vignette/index/'') = []"
    by (simp only: snd_path_split after_last_sep_trailing)
  show "basename (normpath ''vignette/index/'') = ''index''"
    by (simp add: basename_def normpath_def initial_slashes_def sep_def after_last_sep_def)
qed

theorem index_prefix_trailing_separator_witness:
  "trailing_sep_config RRNA_INDEX_PREFIX = Some (YStr (''vignette/index'' @ [sep]))
   \<and> value_after_upgrade trailing_sep_config RRNA_INDEX_PREFIX = Inr (Some (YStr []))"
proof -
  have r: "rename_pass RENAMES trailing_sep_config RRNA_INDEX_PREFIX
      = Some (YStr (''vignette/index'' @ [sep]))"
    by (simp add: table_defs trailing_sep_config_def sep_def)
  have o: "rename_pass RENAMES trailing_sep_config ORF_INDEX_PREFIX
      = Some (YStr ''vignette/index/'')"
    by (simp add: table_defs trailing_sep_config_def)
  obtain c' where c': "upgrade_config trailing_sep_config = Inr c'"
    using upgrade_succeeds [OF r o] by blast
  have "RRNA_INDEX_PREFIX \<in> {RRNA_INDEX_PREFIX, ORF_INDEX_PREFIX}" by simp
  from index_prefix_trailing_separator [OF this r c']
  have "c' RRNA_INDEX_PREFIX = Some (YStr [])" by simp
  moreover have "trailing_sep_config RRNA_INDEX_PREFIX = Some (YStr (''vignette/index'' @ [sep]))"
    by (simp add: trailing_sep_config_def RRNA_INDEX_PREFIX_def sep_def)
  ultimately show ?thesis using c' by (simp add: value_after_upgrade_def)
qed


section \<open>Claims about the checks\<close>

lemmas integration_defs = test_hisat2_build_index_def test_umitools_extract_fq_def
  test_samtools_index_dedup_bam_def test_umitools_dedup_stats_tsv_def
  test_umitools_pre_dedup_group_tsv_def test_umitools_post_dedup_group_tsv_def
  test_bedtools_bedgraph_def test_generate_stats_figs_pdf_def test_analysis_outputs_html_def
  test_read_counts_per_file_tsv_def test_samtools_view_sort_index_def

lemmas regression_defs = regression_test_umitools_extract_fq_def
  regression_test_samtools_view_sort_index_pre_dedup_bam_def
  regression_test_samtools_index_dedup_bam_def regression_test_umitools_dedup_stats_tsv_def
  regression_test_umitools_pre_dedup_group_tsv_def
  regression_test_umitools_post_dedup_group_tsv_def
  regression_test_samtools_view_sort_index_def regression_test_bedtools_bedgraph_def

lemma usefixtures_ok: "usefixtures (Inr u) body = body"
  by (simp add: usefixtures_def)

lemma usefixtures_error: "usefixtures (Inl e) body = (Errored, [])"
  by (simp add: usefixtures_def)

lemma snd_usefixtures:
  "snd (usefixtures fixture body) \<noteq> [] \<Longrightarrow> snd body \<noteq> []"
  by (cases fixture) (simp_all add: usefixtures_def)

lemma not_skipped_compared: "\<not> skipped (oc, c # cs)"
  by (cases oc) simp_all

lemma skipped_run_test:
  "skipped (run_test w []) = False"
  "skipped (run_test w (Skip_if c reason # steps))
     = (if c then reason \<noteq> [] else skipped (run_test w steps))"
  "skipped (run_test w (Assert c # steps)) = (c \<and> skipped (run_test w steps))"
  "skipped (run_test w (Return_if c # steps)) = (\<not> c \<and> skipped (run_test w steps))"
  "skipped (run_test w (Compare cmp e a # steps)) = False"
  by (simp_all add: not_skipped_compared)

lemma example_fixtures:
  "prep_riboviz_fixture all_equal features_off = Inr ()"
  "prep_riboviz_fixture all_differ features_off = Inr ()"
  "prep_riboviz_fixture all_differ dedup_on = Inr ()"
  "prep_riboviz_fixture no_files dedup_on = Inr ()"
  "regression_prep_riboviz_fixture all_equal features_off = Inr ()"
  "regression_prep_riboviz_fixture all_differ features_off = Inr ()"
  "regression_prep_riboviz_fixture all_differ dedup_on = Inr ()"
  "regression_prep_riboviz_fixture no_files dedup_on = Inr ()"
  "prep_riboviz_fixture workflow_failed features_off = Inl AssertionError"
  by (simp_all add: prep_riboviz_fixture_def regression_prep_riboviz_fixture_def
      features_off_def dedup_on_def all_equal_def all_differ_def no_files_def
      workflow_failed_def)

text \<open>
  C8, as the claim states it, fails. The bedgraph check of the regression suite does not
  read \<open>make_bedgraph\<close>: with the flag false it passes when the files compare equal and
  fails when they differ. And a check whose flag is false is an error, not a skip, when
  \<^verbatim>\<open>prep_riboviz_fixture\<close> finds a non-zero exit code of the workflow.
\<close>

theorem bedgraph_flag_counterexample:
  "\<not> make_bedgraph features_off
   \<and> regression_test_bedtools_bedgraph all_equal features_off ''WT3AT'' ''minus.bedgraph''
       = (Passed, [(Compare_files,
            ''/home/user/vignette-data/output/WT3AT/minus.bedgraph'',
            ''vignette/output/WT3AT/minus.bedgraph'')])
   \<and> fst (regression_test_bedtools_bedgraph all_differ features_off ''WT3AT'' ''minus.bedgraph'')
       = Failed
   \<and> test_bedtools_bedgraph workflow_failed features_off ''WT3AT'' ''minus.bedgraph''
       = (Errored, [])"
proof -
  have 1: "\<not> make_bedgraph features_off" by (simp add: features_off_def)
  have dirs: "expected_fixture features_off = ''/home/user/vignette-data''"
    "dir_out features_off = ''vignette/output''"
    by (simp_all add: features_off_def)
  have e: "expected_path (expected_fixture features_off) (dir_out features_off)
        [''WT3AT'', ''minus.bedgraph'']
      = ''/home/user/vignette-data/output/WT3AT/minus.bedgraph''"
    unfolding dirs
    by (simp add: expected_path_def basename_def normpath_def
        initial_slashes_def sep_def after_last_sep_def)
  have a: "path_join (dir_out features_off) [''WT3AT'', ''minus.bedgraph'']
      = ''vignette/output/WT3AT/minus.bedgraph''"
    unfolding dirs by (simp add: sep_def)
  have 2: "regression_test_bedtools_bedgraph all_equal features_off ''WT3AT'' ''minus.bedgraph''
       = (Passed, [(Compare_files,
            ''/home/user/vignette-data/output/WT3AT/minus.bedgraph'',
            ''vignette/output/WT3AT/minus.bedgraph'')])"
    unfolding regression_test_bedtools_bedgraph_def Let_def e a example_fixtures usefixtures_ok
    by (simp add: all_equal_def)
  have 3: "fst (regression_test_bedtools_bedgraph all_differ features_off ''WT3AT''
        ''minus.bedgraph'') = Failed"
    unfolding regression_test_bedtools_bedgraph_def Let_def e a example_fixtures usefixtures_ok
    by (simp add: all_differ_def)
  have 4: "test_bedtools_bedgraph workflow_failed features_off ''WT3AT'' ''minus.bedgraph''
       = (Errored, [])"
    by (simp add: test_bedtools_bedgraph_def example_fixtures usefixtures_error)
  show ?thesis using 1 2 3 4 by (intro conjI)
qed

text \<open>
  C8, amended. Provided that \<^verbatim>\<open>prep_riboviz_fixture\<close> does not raise (the workflow is
  not run, or exits with status 0), each of the following checks is skipped, with a reason
  and before any comparison, when the flag named is false. In \<^verbatim>\<open>test_integration.py\<close>:
  \<open>test_hisat2_build_index\<close> (\<open>build_indices\<close>), \<open>test_umitools_extract_fq\<close>
  (\<open>extract_umis\<close>), \<open>test_samtools_index_dedup_bam\<close> (\<open>dedup_umis\<close>),
  \<open>test_umitools_dedup_stats_tsv\<close> (\<open>dedup_umis\<close>, \<open>dedup_stats\<close>),
  \<open>test_umitools_pre_dedup_group_tsv\<close> and \<open>test_umitools_post_dedup_group_tsv\<close>
  (\<open>dedup_umis\<close>, \<open>group_umis\<close>), \<open>test_bedtools_bedgraph\<close> (\<open>make_bedgraph\<close>),
  \<open>test_generate_stats_figs_pdf\<close> (\<open>output_pdfs\<close>), \<open>test_analysis_outputs_html\<close>
  (\<open>run_static_html\<close>) and \<open>test_read_counts_per_file_tsv\<close> (\<open>count_reads\<close>). In
  \<^verbatim>\<open>test_regression.py\<close>: \<open>test_umitools_extract_fq\<close> (\<open>extract_umis\<close>),
  \<open>test_samtools_view_sort_index_pre_dedup_bam\<close> and \<open>test_samtools_index_dedup_bam\<close>
  (\<open>dedup_umis\<close>), \<open>test_umitools_dedup_stats_tsv\<close> (\<open>dedup_umis\<close>,
  \<open>dedup_stats\<close>), \<open>test_umitools_pre_dedup_group_tsv\<close> and
  \<open>test_umitools_post_dedup_group_tsv\<close> (\<open>group_umis\<close>). These are all the test
  functions of the two modules that read a feature flag, but for
  \<open>test_samtools_view_sort_index\<close>: it reads \<open>dedup_umis\<close>, and with the flag false and
  the expected BAM file present it is not skipped. The bedgraph check of the regression
  suite does not depend on \<open>make_bedgraph\<close>: it is skipped exactly when the expected file
  does not exist.
\<close>

theorem flag_false_skips:
  "(prep_riboviz_fixture w s = Inr () \<longrightarrow>
      (\<not> build_indices s \<longrightarrow> skipped (test_hisat2_build_index nm w s index))
    \<and> (\<not> extract_umis s \<longrightarrow> skipped (test_umitools_extract_fq nm w s sample))
    \<and> (\<not> dedup_umis s \<longrightarrow> skipped (test_samtools_index_dedup_bam nm w s sample))
    \<and> (\<not> dedup_umis s \<or> \<not> dedup_stats s \<longrightarrow>
         skipped (test_umitools_dedup_stats_tsv nm w s sample stats_file))
    \<and> (\<not> dedup_umis s \<or> \<not> group_umis s \<longrightarrow>
         skipped (test_umitools_pre_dedup_group_tsv nm w s sample))
    \<and> (\<not> dedup_umis s \<or> \<not> group_umis s \<longrightarrow>
         skipped (test_umitools_post_dedup_group_tsv nm w s sample))
    \<and> (\<not> make_bedgraph s \<longrightarrow> skipped (test_bedtools_bedgraph w s sample file_name))
    \<and> (\<not> output_pdfs s \<longrightarrow> skipped (test_generate_stats_figs_pdf w s sample file_name))
    \<and> (\<not> run_static_html s \<longrightarrow> skipped (test_analysis_outputs_html nm w s sample))
    \<and> (\<not> count_reads s \<longrightarrow> skipped (test_read_counts_per_file_tsv nm w s))
    \<and> (\<not> dedup_umis s
         \<and> file_exists w (expected_path (expected_fixture s) (dir_out s)
               [sample, BAM_FORMAT nm sample])
       \<longrightarrow> \<not> skipped (test_samtools_view_sort_index nm w s sample)))
   \<and> (regression_prep_riboviz_fixture w s = Inr () \<longrightarrow>
      (\<not> extract_umis s \<longrightarrow> skipped (regression_test_umitools_extract_fq nm w s sample))
    \<and> (\<not> dedup_umis s \<longrightarrow>
         skipped (regression_test_samtools_view_sort_index_pre_dedup_bam nm w s sample))
    \<and> (\<not> dedup_umis s \<longrightarrow> skipped (regression_test_samtools_index_dedup_bam nm w s sample))
    \<and> (\<not> dedup_umis s \<or> \<not> dedup_stats s \<longrightarrow>
         skipped (regression_test_umitools_dedup_stats_tsv nm w s sample stats_file))
    \<and> (\<not> group_umis s \<longrightarrow> skipped (regression_test_umitools_pre_dedup_group_tsv nm w s sample))
    \<and> (\<not> group_umis s \<longrightarrow> skipped (regression_test_umitools_post_dedup_group_tsv nm w s sample))
    \<and> (\<not> dedup_umis s
         \<and> file_exists w (expected_path (expected_fixture s) (dir_out s)
               [sample, BAM_FORMAT nm sample])
       \<longrightarrow> \<not> skipped (regression_test_samtools_view_sort_index nm w s sample))
    \<and> (skipped (regression_test_bedtools_bedgraph w s sample file_name)
       \<longleftrightarrow> \<not> file_exists w (expected_path (expected_fixture s) (dir_out s)
                [sample, file_name])))
   \<and> regression_test_bedtools_bedgraph w (s\<lparr>make_bedgraph := b\<rparr>) sample file_name
       = regression_test_bedtools_bedgraph w s sample file_name"
proof (intro conjI impI)
  assume f: "prep_riboviz_fixture w s = Inr ()"
  show "\<not> build_indices s \<Longrightarrow> skipped (test_hisat2_build_index nm w s index)"
    by (simp add: test_hisat2_build_index_def f usefixtures_ok Let_def skipped_run_test
        del: run_test.simps)
  show "\<not> extract_umis s \<Longrightarrow> skipped (test_umitools_extract_fq nm w s sample)"
    by (simp add: test_umitools_extract_fq_def f usefixtures_ok skipped_run_test del: run_test.simps)
  show "\<not> dedup_umis s \<Longrightarrow> skipped (test_samtools_index_dedup_bam nm w s sample)"
    by (simp add: test_samtools_index_dedup_bam_def f usefixtures_ok Let_def skipped_run_test
        del: run_test.simps)
  show "\<not> dedup_umis s \<or> \<not> dedup_stats s \<Longrightarrow>
         skipped (test_umitools_dedup_stats_tsv nm w s sample stats_file)"
    by (auto simp: test_umitools_dedup_stats_tsv_def f usefixtures_ok Let_def skipped_run_test
        simp del: run_test.simps)
  show "\<not> dedup_umis s \<or> \<not> group_umis s \<Longrightarrow>
         skipped (test_umitools_pre_dedup_group_tsv nm w s sample)"
    by (auto simp: test_umitools_pre_dedup_group_tsv_def f usefixtures_ok skipped_run_test simp del: run_test.simps)
  show "\<not> dedup_umis s \<or> \<not> group_umis s \<Longrightarrow>
         skipped (test_umitools_post_dedup_group_tsv nm w s sample)"
    by (auto simp: test_umitools_post_dedup_group_tsv_def f usefixtures_ok Let_def skipped_run_test
        simp del: run_test.simps)
  show "\<not> make_bedgraph s \<Longrightarrow> skipped (test_bedtools_bedgraph w s sample file_name)"
    by (simp add: test_bedtools_bedgraph_def f usefixtures_ok Let_def skipped_run_test
        del: run_test.simps)
  show "\<not> output_pdfs s \<Longrightarrow> skipped (test_generate_stats_figs_pdf w s sample file_name)"
    by (simp add: test_generate_stats_figs_pdf_def f usefixtures_ok Let_def skipped_run_test
        del: run_test.simps)
  show "\<not> run_static_html s \<Longrightarrow> skipped (test_analysis_outputs_html nm w s sample)"
    by (simp add: test_analysis_outputs_html_def f usefixtures_ok Let_def skipped_run_test
        del: run_test.simps)
  show "\<not> count_reads s \<Longrightarrow> skipped (test_read_counts_per_file_tsv nm w s)"
    by (simp add: test_read_counts_per_file_tsv_def f usefixtures_ok skipped_run_test del: run_test.simps)
  show "\<not> dedup_umis s
         \<and> file_exists w (expected_path (expected_fixture s) (dir_out s)
               [sample, BAM_FORMAT nm sample])
       \<Longrightarrow> \<not> skipped (test_samtools_view_sort_index nm w s sample)"
    by (simp add: test_samtools_view_sort_index_def f usefixtures_ok Let_def skipped_run_test
        del: run_test.simps)
next
  assume f: "regression_prep_riboviz_fixture w s = Inr ()"
  show "\<not> extract_umis s \<Longrightarrow> skipped (regression_test_umitools_extract_fq nm w s sample)"
    by (simp add: regression_test_umitools_extract_fq_def f usefixtures_ok skipped_run_test del: run_test.simps)
  show "\<not> dedup_umis s \<Longrightarrow>
         skipped (regression_test_samtools_view_sort_index_pre_dedup_bam nm w s sample)"
    by (simp add: regression_test_samtools_view_sort_index_pre_dedup_bam_def f usefixtures_ok
        Let_def skipped_run_test del: run_test.simps)
  show "\<not> dedup_umis s \<Longrightarrow> skipped (regression_test_samtools_index_dedup_bam nm w s sample)"
    by (simp add: regression_test_samtools_index_dedup_bam_def f usefixtures_ok skipped_run_test del: run_test.simps)
  show "\<not> dedup_umis s \<or> \<not> dedup_stats s \<Longrightarrow>
         skipped (regression_test_umitools_dedup_stats_tsv nm w s sample stats_file)"
    by (auto simp: regression_test_umitools_dedup_stats_tsv_def f usefixtures_ok Let_def skipped_run_test
        simp del: run_test.simps)
  show "\<not> group_umis s \<Longrightarrow> skipped (regression_test_umitools_pre_dedup_group_tsv nm w s sample)"
    by (simp add: regression_test_umitools_pre_dedup_group_tsv_def f usefixtures_ok skipped_run_test del: run_test.simps)
  show "\<not> group_umis s \<Longrightarrow> skipped (regression_test_umitools_post_dedup_group_tsv nm w s sample)"
    by (simp add: regression_test_umitools_post_dedup_group_tsv_def f usefixtures_ok skipped_run_test del: run_test.simps)
  show "\<not> dedup_umis s
         \<and> file_exists w (expected_path (expected_fixture s) (dir_out s)
               [sample, BAM_FORMAT nm sample])
       \<Longrightarrow> \<not> skipped (regression_test_samtools_view_sort_index nm w s sample)"
    by (simp add: regression_test_samtools_view_sort_index_def f usefixtures_ok Let_def skipped_run_test
        del: run_test.simps)
  show "skipped (regression_test_bedtools_bedgraph w s sample file_name)
       \<longleftrightarrow> \<not> file_exists w (expected_path (expected_fixture s) (dir_out s)
                [sample, file_name])"
    by (simp add: regression_test_bedtools_bedgraph_def f usefixtures_ok Let_def skipped_run_test
        del: run_test.simps)
next
  show "regression_test_bedtools_bedgraph w (s\<lparr>make_bedgraph := b\<rparr>) sample file_name
       = regression_test_bedtools_bedgraph w s sample file_name"
    by (simp add: regression_test_bedtools_bedgraph_def regression_prep_riboviz_fixture_def
        Let_def)
qed

theorem flag_false_skips_witness:
  "prep_riboviz_fixture all_differ features_off = Inr ()
   \<and> \<not> make_bedgraph features_off
   \<and> skipped (test_bedtools_bedgraph all_differ features_off ''WT3AT'' ''minus.bedgraph'')
   \<and> \<not> extract_umis features_off
   \<and> skipped (test_umitools_extract_fq vignette_names all_differ features_off ''WT3AT'')
   \<and> prep_riboviz_fixture all_differ dedup_on = Inr ()
   \<and> dedup_umis dedup_on \<and> \<not> dedup_stats dedup_on
   \<and> skipped (test_umitools_dedup_stats_tsv vignette_names all_differ dedup_on ''WT3AT''
        ''per_umi.tsv'')
   \<and> regression_prep_riboviz_fixture all_differ features_off = Inr ()
   \<and> \<not> group_umis features_off
   \<and> skipped (regression_test_umitools_post_dedup_group_tsv vignette_names all_differ
        features_off ''WT3AT'')"
proof -
  have f: "\<not> make_bedgraph features_off" "\<not> extract_umis features_off"
    "\<not> group_umis features_off"
    by (simp_all add: features_off_def)
  have d: "dedup_umis dedup_on" "\<not> dedup_stats dedup_on"
    by (simp_all add: dedup_on_def features_off_def)
  have 1: "skipped (test_bedtools_bedgraph all_differ features_off ''WT3AT'' ''minus.bedgraph'')"
    "skipped (test_umitools_extract_fq vignette_names all_differ features_off ''WT3AT'')"
    "skipped (regression_test_umitools_post_dedup_group_tsv vignette_names all_differ
        features_off ''WT3AT'')"
    using f example_fixtures(2,6)
      flag_false_skips [of all_differ features_off vignette_names 1 "''WT3AT''"
        "''per_umi.tsv''" "''minus.bedgraph''" False]
    by blast+
  have 2: "skipped (test_umitools_dedup_stats_tsv vignette_names all_differ dedup_on ''WT3AT''
        ''per_umi.tsv'')"
    using d example_fixtures(3)
      flag_false_skips [of all_differ dedup_on vignette_names 1 "''WT3AT''"
        "''per_umi.tsv''" "''minus.bedgraph''" False]
    by blast
  show ?thesis using f d 1 2 example_fixtures(2,3,6) by (intro conjI)
qed

text \<open>
  C9, as the claim states it, fails: with \<open>dedup_umis\<close> true and no expected BAM file the
  check is skipped before its assertions, so a missing actual BAM file is not reported.
\<close>

theorem dedup_bam_not_asserted_counterexample:
  "dedup_umis dedup_on
   \<and> prep_riboviz_fixture no_files dedup_on = Inr ()
   \<and> \<not> file_exists no_files
         (path_join (dir_out dedup_on) [''WT3AT'', BAM_FORMAT vignette_names ''WT3AT''])
   \<and> test_samtools_view_sort_index vignette_names no_files dedup_on ''WT3AT''
       = (Skipped ''Skipped as expected file does not exist'', [])
   \<and> regression_test_samtools_view_sort_index vignette_names no_files dedup_on ''WT3AT''
       = (Skipped ''Skipped as expected file does not exist'', [])"
proof -
  have 1: "dedup_umis dedup_on" by (simp add: dedup_on_def)
  have 2: "\<And>p. \<not> file_exists no_files p" by (simp add: no_files_def)
  have 3: "test_samtools_view_sort_index vignette_names no_files dedup_on ''WT3AT''
       = (Skipped ''Skipped as expected file does not exist'', [])"
    by (simp add: test_samtools_view_sort_index_def example_fixtures usefixtures_ok Let_def 2)
  have 4: "regression_test_samtools_view_sort_index vignette_names no_files dedup_on ''WT3AT''
       = (Skipped ''Skipped as expected file does not exist'', [])"
    by (simp add: regression_test_samtools_view_sort_index_def example_fixtures usefixtures_ok
        Let_def 2)
  show ?thesis using 1 2 3 4 example_fixtures(4) by (intro conjI)
qed

text \<open>
  C9, amended. Provided that \<^verbatim>\<open>prep_riboviz_fixture\<close> does not raise and the expected BAM
  file of the sample exists: when \<open>dedup_umis\<close> is true the check of the output BAM file,
  in either suite, passes if the actual BAM file and its index file exist and fails
  otherwise, and it makes no comparison. (Without the expected BAM file the check is
  skipped, and the actual files are not looked at.) A check that has made a comparison ran
  with \<open>dedup_umis\<close> false; and with \<open>dedup_umis\<close> false and the three files present the
  check does compare.
\<close>

theorem dedup_bam_existence_only:
  "(prep_riboviz_fixture w s = Inr () \<and> dedup_umis s
      \<and> file_exists w (expected_path (expected_fixture s) (dir_out s)
            [sample, BAM_FORMAT nm sample])
    \<longrightarrow> test_samtools_view_sort_index nm w s sample =
          (if file_exists w (path_join (dir_out s) [sample, BAM_FORMAT nm sample])
              \<and> file_exists w (path_join (dir_out s)
                    [sample, BAI_FORMAT nm (BAM_FORMAT nm sample)])
           then Passed else Failed, []))
   \<and> (regression_prep_riboviz_fixture w s = Inr () \<and> dedup_umis s
      \<and> file_exists w (expected_path (expected_fixture s) (dir_out s)
            [sample, BAM_FORMAT nm sample])
    \<longrightarrow> regression_test_samtools_view_sort_index nm w s sample =
          (if file_exists w (path_join (dir_out s) [sample, BAM_FORMAT nm sample])
              \<and> file_exists w (path_join (dir_out s)
                    [sample, BAI_FORMAT nm (BAM_FORMAT nm sample)])
           then Passed else Failed, []))
   \<and> (prep_riboviz_fixture w s = Inr () \<and> dedup_umis s
      \<and> \<not> file_exists w (expected_path (expected_fixture s) (dir_out s)
            [sample, BAM_FORMAT nm sample])
    \<longrightarrow> test_samtools_view_sort_index nm w s sample
          = (Skipped ''Skipped as expected file does not exist'', []))
   \<and> (regression_prep_riboviz_fixture w s = Inr () \<and> dedup_umis s
      \<and> \<not> file_exists w (expected_path (expected_fixture s) (dir_out s)
            [sample, BAM_FORMAT nm sample])
    \<longrightarrow> regression_test_samtools_view_sort_index nm w s sample
          = (Skipped ''Skipped as expected file does not exist'', []))
   \<and> (snd (test_samtools_view_sort_index nm w s sample) \<noteq> [] \<longrightarrow> \<not> dedup_umis s)
   \<and> (snd (regression_test_samtools_view_sort_index nm w s sample) \<noteq> [] \<longrightarrow> \<not> dedup_umis s)
   \<and> (prep_riboviz_fixture w s = Inr () \<and> \<not> dedup_umis s
        \<and> file_exists w (expected_path (expected_fixture s) (dir_out s)
              [sample, BAM_FORMAT nm sample])
        \<and> file_exists w (path_join (dir_out s) [sample, BAM_FORMAT nm sample])
        \<and> file_exists w (path_join (dir_out s) [sample, BAI_FORMAT nm (BAM_FORMAT nm sample)])
      \<longrightarrow> snd (test_samtools_view_sort_index nm w s sample) \<noteq> [])
   \<and> (regression_prep_riboviz_fixture w s = Inr () \<and> \<not> dedup_umis s
        \<and> file_exists w (expected_path (expected_fixture s) (dir_out s)
              [sample, BAM_FORMAT nm sample])
        \<and> file_exists w (path_join (dir_out s) [sample, BAM_FORMAT nm sample])
        \<and> file_exists w (path_join (dir_out s) [sample, BAI_FORMAT nm (BAM_FORMAT nm sample)])
      \<longrightarrow> snd (regression_test_samtools_view_sort_index nm w s sample) \<noteq> [])"
proof (intro conjI impI)
  show "snd (test_samtools_view_sort_index nm w s sample) \<noteq> [] \<Longrightarrow> \<not> dedup_umis s"
    unfolding test_samtools_view_sort_index_def
    by (drule snd_usefixtures) (auto simp: Let_def split: if_splits)
  show "snd (regression_test_samtools_view_sort_index nm w s sample) \<noteq> [] \<Longrightarrow> \<not> dedup_umis s"
    unfolding regression_test_samtools_view_sort_index_def
    by (drule snd_usefixtures) (auto simp: Let_def split: if_splits)
qed (simp_all add: test_samtools_view_sort_index_def
    regression_test_samtools_view_sort_index_def usefixtures_ok Let_def)

theorem dedup_bam_existence_only_witness:
  "prep_riboviz_fixture all_differ dedup_on = Inr ()
   \<and> regression_prep_riboviz_fixture all_differ dedup_on = Inr ()
   \<and> dedup_umis dedup_on
   \<and> test_samtools_view_sort_index vignette_names all_differ dedup_on ''WT3AT'' = (Passed, [])
   \<and> regression_test_samtools_view_sort_index vignette_names all_differ dedup_on ''WT3AT''
       = (Passed, [])
   \<and> prep_riboviz_fixture all_equal features_off = Inr ()
   \<and> \<not> dedup_umis features_off
   \<and> snd (test_samtools_view_sort_index vignette_names all_equal features_off ''WT3AT'') \<noteq> []"
proof -
  have d: "dedup_umis dedup_on" by (simp add: dedup_on_def)
  have e: "\<And>p. file_exists all_differ p" "\<And>p. file_exists all_equal p"
    by (simp_all add: all_differ_def all_equal_def)
  have n: "\<not> dedup_umis features_off" by (simp add: features_off_def)
  have 1: "test_samtools_view_sort_index vignette_names all_differ dedup_on ''WT3AT''
      = (Passed, [])"
    using dedup_bam_existence_only [of all_differ dedup_on "''WT3AT''" vignette_names]
      d e(1) example_fixtures(3)
    by simp
  have 2: "regression_test_samtools_view_sort_index vignette_names all_differ dedup_on ''WT3AT''
      = (Passed, [])"
    using dedup_bam_existence_only [of all_differ dedup_on "''WT3AT''" vignette_names]
      d e(1) example_fixtures(7)
    by simp
  have 3: "snd (test_samtools_view_sort_index vignette_names all_equal features_off ''WT3AT'')
      \<noteq> []"
    using dedup_bam_existence_only [of all_equal features_off "''WT3AT''" vignette_names]
      n e(2) example_fixtures(1)
    by blast
  show ?thesis using d n 1 2 3 example_fixtures(1,3,7) by (intro conjI)
qed

end
